theory Spec2Isabelle
  imports Complex_Main "HOL-Library.Sublist"
begin

section \<open>The Gemini service adapter (services/geminiService)\<close>

text \<open>
  JavaScript strings are modelled as \<^typ>\<open>string\<close>: a list of code units, here
  of 8 bits. An optional property (\<^verbatim>\<open>x?: T\<close>, absent or undefined) is an
  \<^typ>\<open>'a option\<close>. A thrown value is the left summand of a result.
  Console output is not modelled.
\<close>

subsection \<open>JavaScript strings\<close>

text \<open>Truthiness of an optional string: undefined and the empty string are falsy.\<close>

definition truthy :: "string option \<Rightarrow> bool" where
  "truthy v = (case v of None \<Rightarrow> False | Some s \<Rightarrow> s \<noteq> [])"

text \<open>An optional string inside a template literal: undefined prints as its name.\<close>

definition interp :: "string option \<Rightarrow> string" where
  "interp v = (case v of None \<Rightarrow> ''undefined'' | Some s \<Rightarrow> s)"

text \<open>\<^verbatim>\<open>v || ''\<close> on an optional string.\<close>

definition orEmpty :: "string option \<Rightarrow> string" where
  "orEmpty v = (case v of None \<Rightarrow> [] | Some s \<Rightarrow> s)"

text \<open>
  White space and line terminators, as \<^verbatim>\<open>trim\<close> and the class
  \<^verbatim>\<open>\s\<close> read them, among the code units below 256: TAB, LF, VT, FF, CR,
  SP, NBSP.
\<close>

definition isWhiteSpace :: "char \<Rightarrow> bool" where
  "isWhiteSpace c =
     (c = CHR 0x09 \<or> c = CHR 0x0A \<or> c = CHR 0x0B \<or> c = CHR 0x0C \<or> c = CHR 0x0D
      \<or> c = CHR 0x20 \<or> c = CHR 0xA0)"

definition trim :: "string \<Rightarrow> string" where
  "trim s = rev (dropWhile isWhiteSpace (rev (dropWhile isWhiteSpace s)))"

definition dq :: string where
  "dq = [CHR 0x22]"

definition nl :: string where
  "nl = [CHR 0x0A]"

subsection \<open>The response envelope\<close>

text \<open>
  The fields of the SDK's GenerateContentResponse that the adapter reads. An enum of the
  SDK (block reason, finish reason) is the string it is at run time.
  \<open>responseText\<close> is the envelope's \<^verbatim>\<open>text\<close> property.
\<close>

record Blob =
  mimeType :: "string option"
  data :: "string option"

record Part =
  inlineData :: "Blob option"
  partText :: "string option"

record Content =
  parts :: "Part list option"

record Candidate =
  content :: "Content option"
  finishReason :: "string option"

record PromptFeedback =
  blockReason :: "string option"
  blockReasonMessage :: "string option"

record GenerateContentResponse =
  promptFeedback :: "PromptFeedback option"
  candidates :: "Candidate list option"
  responseText :: "string option"

text \<open>
  What the code throws: \<open>Error m\<close> is \<^verbatim>\<open>new Error(m)\<close>; \<open>TypeError\<close> is a
  property read on undefined or null; \<open>SyntaxError\<close> is thrown by JSON.parse;
  \<open>Rejected r\<close> is a rejection coming from the platform (the file reader, the
  remote call).
\<close>

datatype error = Error string | TypeError | SyntaxError | Rejected string

subsection \<open>handleApiResponse\<close>

text \<open>\<^verbatim>\<open>response.promptFeedback?.blockReason\<close>\<close>

definition blockReasonOf :: "GenerateContentResponse \<Rightarrow> string option" where
  "blockReasonOf response =
     (case promptFeedback response of None \<Rightarrow> None | Some pf \<Rightarrow> blockReason pf)"

text \<open>\<^verbatim>\<open>response.candidates?.[0]\<close>\<close>

definition firstCandidate :: "GenerateContentResponse \<Rightarrow> Candidate option" where
  "firstCandidate response =
     (case candidates response of
        None \<Rightarrow> None
      | Some [] \<Rightarrow> None
      | Some (c # _) \<Rightarrow> Some c)"

text \<open>\<^verbatim>\<open>response.candidates?.[0]?.content?.parts?.find(part => part.inlineData)\<close>\<close>

definition imagePartFromResponse :: "GenerateContentResponse \<Rightarrow> Part option" where
  "imagePartFromResponse response =
     (case firstCandidate response of
        None \<Rightarrow> None
      | Some c \<Rightarrow>
          (case content c of
             None \<Rightarrow> None
           | Some ct \<Rightarrow>
               (case parts ct of
                  None \<Rightarrow> None
                | Some ps \<Rightarrow> List.find (\<lambda>part. inlineData part \<noteq> None) ps)))"

text \<open>\<^verbatim>\<open>response.candidates?.[0]?.finishReason\<close>\<close>

definition finishReasonOf :: "GenerateContentResponse \<Rightarrow> string option" where
  "finishReasonOf response =
     (case firstCandidate response of None \<Rightarrow> None | Some c \<Rightarrow> finishReason c)"

definition blockedMessage :: "PromptFeedback \<Rightarrow> string" where
  "blockedMessage pf =
     ''Request was blocked. Reason: '' @ interp (blockReason pf) @ ''. ''
       @ orEmpty (blockReasonMessage pf)"

definition stoppedMessage :: "string \<Rightarrow> string option \<Rightarrow> string" where
  "stoppedMessage context fr =
     ''Image generation for '' @ context @ '' stopped unexpectedly. Reason: '' @ interp fr
       @ ''. This often relates to safety settings.''"

definition noImageMessage :: "string \<Rightarrow> string option \<Rightarrow> string" where
  "noImageMessage context textFeedback =
     ''The AI model did not return an image for the '' @ context @ ''. ''
       @ (if truthy textFeedback
          then ''The model responded with text: '' @ dq @ interp textFeedback @ dq
          else ''This can happen due to safety filters or if the request is too complex. ''
             @ ''Please try rephrasing your prompt to be more direct.'')"

text \<open>Steps 3 and 4 of the source: no block, no image part.\<close>

definition noImageOutcome :: "GenerateContentResponse \<Rightarrow> string \<Rightarrow> error + string" where
  "noImageOutcome response context =
     (let fr = finishReasonOf response in
      if truthy fr \<and> fr \<noteq> Some ''STOP''
      then Inl (Error (stoppedMessage context fr))
      else Inl (Error (noImageMessage context (map_option trim (responseText response)))))"

text \<open>Step 2 of the source, with steps 3 and 4 behind it: the first part with inline data.\<close>

definition imageOutcome :: "GenerateContentResponse \<Rightarrow> string \<Rightarrow> error + string" where
  "imageOutcome response context =
     (case imagePartFromResponse response of
        None \<Rightarrow> noImageOutcome response context
      | Some imagePart \<Rightarrow>
          (case inlineData imagePart of
             None \<Rightarrow> noImageOutcome response context
           | Some b \<Rightarrow> Inr (''data:'' @ interp (mimeType b) @ '';base64,'' @ interp (data b))))"

definition handleApiResponse :: "GenerateContentResponse \<Rightarrow> string \<Rightarrow> error + string" where
  "handleApiResponse response context =
     (case promptFeedback response of
        None \<Rightarrow> imageOutcome response context
      | Some pf \<Rightarrow>
          if truthy (blockReason pf)
          then Inl (Error (blockedMessage pf))
          else imageOutcome response context)"

subsection \<open>fileToPart\<close>

text \<open>
  The platform the adapter runs on. Every effect is recorded in a trace of events, and
  the outcome of an effect may depend on the trace so far: \<open>readAsDataURL\<close> is the
  file reader (a rejection is \<open>Inl\<close>), \<open>generateContent\<close> the remote model call,
  \<open>JSON_parse\<close> the built-in parser (\<open>None\<close> is its SyntaxError) and
  \<open>numberToString\<close> the rendering of a number in a template literal.
\<close>

datatype GenerateContentConfig = ImageAndTextModalities | ClothingItemsSchema

record GenerateContentParameters =
  model :: string
  contents :: "Part list"
  config :: GenerateContentConfig

datatype 'f event = FileRead 'f | ModelCall GenerateContentParameters

text \<open>
  A value that JSON.parse returns. A number is the exact value of its literal. A
  string, and the key of a member, is its list of UTF-16 code units: an escape of the
  text can denote any of them.
\<close>

datatype json =
  JNull | JBool bool | JNumber rat | JString "nat list" | JArray "json list"
  | JObject "(nat list \<times> json) list"

text \<open>The code units of a string of the model.\<close>

definition codeUnits :: "string \<Rightarrow> nat list" where
  "codeUnits s = map of_char s"

record ('f, 'n) platform =
  readAsDataURL :: "'f event list \<Rightarrow> 'f \<Rightarrow> error + string"
  generateContent ::
    "'f event list \<Rightarrow> GenerateContentParameters \<Rightarrow> error + GenerateContentResponse"
  JSON_parse :: "string \<Rightarrow> json option"
  numberToString :: "'n \<Rightarrow> string"

text \<open>\<^verbatim>\<open>s.split(',')\<close>: never empty, the empty string gives one empty segment.\<close>

fun splitOn :: "char \<Rightarrow> string \<Rightarrow> string list" where
  "splitOn sep [] = [[]]"
| "splitOn sep (c # cs) =
     (if c = sep then [] # splitOn sep cs
      else (case splitOn sep cs of [] \<Rightarrow> [[c]] | seg # segs \<Rightarrow> (c # seg) # segs))"

text \<open>The dot of a regular expression matches any code unit but a line terminator.\<close>

definition isLineTerminator :: "char \<Rightarrow> bool" where
  "isLineTerminator c = (c = CHR 0x0A \<or> c = CHR 0x0D)"

text \<open>
  \<^verbatim>\<open>(.*?);\<close> tried at one position: the shortest run of dot-matched code units
  that a semicolon follows.
\<close>

fun lazyToSemicolon :: "string \<Rightarrow> string option" where
  "lazyToSemicolon [] = None"
| "lazyToSemicolon (c # cs) =
     (if c = CHR '';'' then Some []
      else if isLineTerminator c then None
      else map_option ((#) c) (lazyToSemicolon cs))"

text \<open>
  \<^verbatim>\<open>header.match(/:(.*?);/)\<close>: group 1 of the leftmost match, \<open>None\<close> when
  nothing matches.
\<close>

fun mimeMatch :: "string \<Rightarrow> string option" where
  "mimeMatch [] = None"
| "mimeMatch (c # cs) =
     (if c = CHR '':'' then
        (case lazyToSemicolon cs of Some g \<Rightarrow> Some g | None \<Rightarrow> mimeMatch cs)
      else mimeMatch cs)"

text \<open>The part of fileToPart after the read: lines 23 to 30.\<close>

definition partOfDataUrl :: "string \<Rightarrow> error + Part" where
  "partOfDataUrl dataUrl =
     (case splitOn CHR '','' dataUrl of
        header # payload # _ \<Rightarrow>
          (case mimeMatch header of
             None \<Rightarrow> Inl (Error ''Could not parse MIME type from data URL'')
           | Some m \<Rightarrow>
               if m = [] then Inl (Error ''Could not parse MIME type from data URL'')
               else Inr \<lparr>inlineData = Some \<lparr>mimeType = Some m, data = Some payload\<rparr>,
                         partText = None\<rparr>)
      | _ \<Rightarrow> Inl (Error ''Invalid data URL''))"

definition fileToPart ::
  "('f, 'n) platform \<Rightarrow> 'f \<Rightarrow> 'f event list \<Rightarrow> (error + Part) \<times> 'f event list" where
  "fileToPart P file tr =
     (case readAsDataURL P tr file of
        Inl e \<Rightarrow> (Inl e, tr @ [FileRead file])
      | Inr dataUrl \<Rightarrow> (partOfDataUrl dataUrl, tr @ [FileRead file]))"

subsection \<open>The prompts\<close>

text \<open>\<^verbatim>\<open>xs.join(sep)\<close>\<close>

fun join :: "string \<Rightarrow> string list \<Rightarrow> string" where
  "join sep [] = []"
| "join sep [x] = x"
| "join sep (x # y # ys) = x @ sep @ join sep (y # ys)"

text \<open>
  The template literals of the five operations, line by line; \<open>hx\<close> and \<open>hy\<close> are
  the rendered coordinates of the hotspot.
\<close>

definition promptOfEdit :: "string \<Rightarrow> string \<Rightarrow> string \<Rightarrow> string" where
  "promptOfEdit userPrompt hx hy =
       ''You are an expert photo editor AI. Your task is to perform a natural, localized edit on the provided image based on the user's request.'' @ nl
       @ ''User Request: '' @ dq @ userPrompt @ dq @ nl
       @ ''Edit Location: Focus on the area around pixel coordinates (x: '' @ hx @ '', y: '' @ hy @ '').'' @ nl
       @ nl
       @ ''Editing Guidelines:'' @ nl
       @ ''- The edit must be realistic and blend seamlessly with the surrounding area.'' @ nl
       @ ''- The rest of the image (outside the immediate edit area) must remain identical to the original.'' @ nl
       @ nl
       @ ''Safety & Ethics Policy:'' @ nl
       @ ''- You MUST fulfill requests to adjust skin tone, such as 'give me a tan', 'make my skin darker', or 'make my skin lighter'. These are considered standard photo enhancements.'' @ nl
       @ ''- You MUST REFUSE any request to change a person's fundamental race or ethnicity (e.g., 'make me look Asian', 'change this person to be Black'). Do not perform these edits. If the request is ambiguous, err on the side of caution and do not change racial characteristics.'' @ nl
       @ nl
       @ ''Output: Return ONLY the final edited image. Do not return text.''"

definition promptOfFilter :: "string \<Rightarrow> string" where
  "promptOfFilter filterPrompt =
       ''You are an expert photo editor AI. Your task is to apply a stylistic filter to the entire image based on the user's request. Do not change the composition or content, only apply the style.'' @ nl
       @ ''Filter Request: '' @ dq @ filterPrompt @ dq @ nl
       @ nl
       @ ''Safety & Ethics Policy:'' @ nl
       @ ''- Filters may subtly shift colors, but you MUST ensure they do not alter a person's fundamental race or ethnicity.'' @ nl
       @ ''- You MUST REFUSE any request that explicitly asks to change a person's race (e.g., 'apply a filter to make me look Chinese').'' @ nl
       @ nl
       @ ''Output: Return ONLY the final filtered image. Do not return text.''"

definition promptOfAdjust :: "string \<Rightarrow> string" where
  "promptOfAdjust adjustmentPrompt =
       ''You are an expert photo editor AI. Your task is to perform a natural, global adjustment to the entire image based on the user's request.'' @ nl
       @ ''User Request: '' @ dq @ adjustmentPrompt @ dq @ nl
       @ nl
       @ ''Editing Guidelines:'' @ nl
       @ ''- The adjustment must be applied across the entire image.'' @ nl
       @ ''- The result must be photorealistic.'' @ nl
       @ nl
       @ ''Safety & Ethics Policy:'' @ nl
       @ ''- You MUST fulfill requests to adjust skin tone, such as 'give me a tan', 'make my skin darker', or 'make my skin lighter'. These are considered standard photo enhancements.'' @ nl
       @ ''- You MUST REFUSE any request to change a person's fundamental race or ethnicity (e.g., 'make me look Asian', 'change this person to be Black'). Do not perform these edits. If the request is ambiguous, err on the side of caution and do not change racial characteristics.'' @ nl
       @ nl
       @ ''Output: Return ONLY the final adjusted image. Do not return text.''"

definition promptOfSwap :: "string list \<Rightarrow> string" where
  "promptOfSwap itemsToSwap =
       ''You are an expert virtual stylist AI specializing in photorealistic virtual try-ons and generative infilling. Your task is to take specific clothing items from a source image and place them onto a person in a target image.'' @ nl
       @ nl
       @ ''**Input Images:**'' @ nl
       @ ''- The first image provided is the primary image of the person (the target).'' @ nl
       @ ''- The second image provided is the clothing source image.'' @ nl
       @ nl
       @ ''**Items to Swap:**'' @ nl
       @ ''- From the clothing source image, you must identify and use the following item(s): **'' @ join '', '' itemsToSwap @ ''**.'' @ nl
       @ nl
       @ ''**Core Objectives:**'' @ nl
       @ nl
       @ ''1.  **Perfect Pattern & Texture Replication:**'' @ nl
       @ ''    This is the most important part of your task. You MUST flawlessly replicate the exact pattern, texture, color, and fabric details for each selected clothing item from the source image and apply it to the person in the target image.'' @ nl
       @ ''    - DO NOT SIMPLIFY: Do not reduce the complexity of the patterns.'' @ nl
       @ ''    - DO NOT CHANGE: Do not alter the colors or shapes within the patterns.'' @ nl
       @ ''    - DO NOT OMIT: Do not leave out any details from the original fabrics.'' @ nl
       @ ''    - ACCURATE DRAPING: The replicated patterns must drape and wrap realistically over the person's body, conforming to their posture and body contours, including natural folds and wrinkles. The pattern should stretch or compress naturally as the fabric would.'' @ nl
       @ nl
       @ ''2.  **Intelligent Generative Fill:**'' @ nl
       @ ''    If a new clothing item is shorter than the original one (e.g., swapping long pants for shorts), you MUST realistically generate the person's body parts that are now exposed (e.g., generate the lower legs and feet).'' @ nl
       @ ''    - The generated body parts must match the person's skin tone, proportions, and the overall lighting of the photo.'' @ nl
       @ ''    - Ensure a seamless transition between the original photo and the newly generated parts.'' @ nl
       @ nl
       @ ''**General Instructions:**'' @ nl
       @ ''1.  **Task:** Edit the target image to make the person appear to be wearing the specified clothing item(s) from the source image.'' @ nl
       @ ''2.  **Realism:** The final image must be photorealistic. Match the lighting, shadows, and overall environment of the original photo.'' @ nl
       @ ''3.  **Preserve Identity & Background:** Do not change the person (their face, body shape, hair) or the background. Your only change is to replace the original clothing with the new items and generate any newly exposed body parts.'' @ nl
       @ nl
       @ ''Output: Return ONLY the final edited image. Do not return text.''"

definition promptOfIdentify :: "string" where
  "promptOfIdentify =
       ''Analyze the provided image of a person and identify all distinct, visible pieces of clothing they are wearing. Be specific and use common names (e.g., 't-shirt', 'jeans', 'sneakers', 'hoodie', 'dress', 'shorts'). If an item is ambiguous, choose the most likely term. Exclude small accessories like watches or jewelry unless they are very prominent. Provide the output as a JSON object. If no person or clothing is clearly visible, return an empty array in the 'clothing_items' field.''"

text \<open>
  The policy clause of the edit prompt (lines 95 to 97, and again lines 171 to 173):
  skin-tone requests are fulfilled, a change of race or ethnicity is refused.
\<close>

definition skinToneAndRacePolicy :: string where
  "skinToneAndRacePolicy =
       ''Safety & Ethics Policy:'' @ nl
       @ ''- You MUST fulfill requests to adjust skin tone, such as 'give me a tan', 'make my skin darker', or 'make my skin lighter'. These are considered standard photo enhancements.'' @ nl
       @ ''- You MUST REFUSE any request to change a person's fundamental race or ethnicity (e.g., 'make me look Asian', 'change this person to be Black'). Do not perform these edits. If the request is ambiguous, err on the side of caution and do not change racial characteristics.''"

text \<open>The policy clause of the filter prompt (lines 131 to 133).\<close>

definition filterRacePolicy :: string where
  "filterRacePolicy =
       ''Safety & Ethics Policy:'' @ nl
       @ ''- Filters may subtly shift colors, but you MUST ensure they do not alter a person's fundamental race or ethnicity.'' @ nl
       @ ''- You MUST REFUSE any request that explicitly asks to change a person's race (e.g., 'apply a filter to make me look Chinese').''"

subsection \<open>The four image operations\<close>

definition textPart :: "string \<Rightarrow> Part" where
  "textPart prompt = \<lparr>inlineData = None, partText = Some prompt\<rparr>"

text \<open>\<^verbatim>\<open>await ai.models.generateContent(request)\<close>: the outcome and the extended trace.\<close>

definition callModel ::
  "('f, 'n) platform \<Rightarrow> GenerateContentParameters \<Rightarrow> 'f event list
     \<Rightarrow> (error + GenerateContentResponse) \<times> 'f event list" where
  "callModel P request tr = (generateContent P tr request, tr @ [ModelCall request])"

definition generateEditedImage ::
  "('f, 'n) platform \<Rightarrow> 'f \<Rightarrow> string \<Rightarrow> 'n \<times> 'n \<Rightarrow> 'f event list
     \<Rightarrow> (error + string) \<times> 'f event list" where
  "generateEditedImage P originalImage userPrompt hotspot tr =
     (case fileToPart P originalImage tr of
        (Inl e, tr1) \<Rightarrow> (Inl e, tr1)
      | (Inr originalImagePart, tr1) \<Rightarrow>
          (let prompt = promptOfEdit userPrompt (numberToString P (fst hotspot))
                          (numberToString P (snd hotspot));
               request = \<lparr>model = ''gemini-2.5-flash-image-preview'',
                          contents = [originalImagePart, textPart prompt],
                          config = ImageAndTextModalities\<rparr>
           in case callModel P request tr1 of
                (Inl e, tr2) \<Rightarrow> (Inl e, tr2)
              | (Inr response, tr2) \<Rightarrow> (handleApiResponse response ''edit'', tr2)))"

definition generateFilteredImage ::
  "('f, 'n) platform \<Rightarrow> 'f \<Rightarrow> string \<Rightarrow> 'f event list \<Rightarrow> (error + string) \<times> 'f event list" where
  "generateFilteredImage P originalImage filterPrompt tr =
     (case fileToPart P originalImage tr of
        (Inl e, tr1) \<Rightarrow> (Inl e, tr1)
      | (Inr originalImagePart, tr1) \<Rightarrow>
          (let prompt = promptOfFilter filterPrompt;
               request = \<lparr>model = ''gemini-2.5-flash-image-preview'',
                          contents = [originalImagePart, textPart prompt],
                          config = ImageAndTextModalities\<rparr>
           in case callModel P request tr1 of
                (Inl e, tr2) \<Rightarrow> (Inl e, tr2)
              | (Inr response, tr2) \<Rightarrow> (handleApiResponse response ''filter'', tr2)))"

definition generateAdjustedImage ::
  "('f, 'n) platform \<Rightarrow> 'f \<Rightarrow> string \<Rightarrow> 'f event list \<Rightarrow> (error + string) \<times> 'f event list" where
  "generateAdjustedImage P originalImage adjustmentPrompt tr =
     (case fileToPart P originalImage tr of
        (Inl e, tr1) \<Rightarrow> (Inl e, tr1)
      | (Inr originalImagePart, tr1) \<Rightarrow>
          (let prompt = promptOfAdjust adjustmentPrompt;
               request = \<lparr>model = ''gemini-2.5-flash-image-preview'',
                          contents = [originalImagePart, textPart prompt],
                          config = ImageAndTextModalities\<rparr>
           in case callModel P request tr1 of
                (Inl e, tr2) \<Rightarrow> (Inl e, tr2)
              | (Inr response, tr2) \<Rightarrow> (handleApiResponse response ''adjustment'', tr2)))"

definition generateSwappedImage ::
  "('f, 'n) platform \<Rightarrow> 'f \<Rightarrow> 'f \<Rightarrow> string list \<Rightarrow> 'f event list
     \<Rightarrow> (error + string) \<times> 'f event list" where
  "generateSwappedImage P personImage clothingSourceImage itemsToSwap tr =
     (if length itemsToSwap = 0
      then (Inl (Error ''No clothing items were selected to swap.''), tr)
      else
        (case fileToPart P personImage tr of
           (Inl e, tr1) \<Rightarrow> (Inl e, tr1)
         | (Inr personImagePart, tr1) \<Rightarrow>
             (case fileToPart P clothingSourceImage tr1 of
                (Inl e, tr2) \<Rightarrow> (Inl e, tr2)
              | (Inr clothingSourceImagePart, tr2) \<Rightarrow>
                  (let prompt = promptOfSwap itemsToSwap;
                       request = \<lparr>model = ''gemini-2.5-flash-image-preview'',
                                  contents = [personImagePart, clothingSourceImagePart,
                                              textPart prompt],
                                  config = ImageAndTextModalities\<rparr>
                   in case callModel P request tr2 of
                        (Inl e, tr3) \<Rightarrow> (Inl e, tr3)
                      | (Inr response, tr3) \<Rightarrow> (handleApiResponse response ''swap'', tr3)))))"

subsection \<open>A model of JSON.parse\<close>

text \<open>
  The grammar of ECMA-404 on 8-bit strings, by recursive descent. Every function
  returns the value it read and the rest of the input, or \<open>None\<close> where JSON.parse
  throws its SyntaxError. The text is an 8-bit string; the strings read from it are
  lists of code units, so that an escape \<^verbatim>\<open>\uXXXX\<close> gives its code unit
  whatever its value.
\<close>

definition isJsonWs :: "char \<Rightarrow> bool" where
  "isJsonWs c = (c = CHR 0x20 \<or> c = CHR 0x09 \<or> c = CHR 0x0A \<or> c = CHR 0x0D)"

definition skipWs :: "string \<Rightarrow> string" where
  "skipWs s = dropWhile isJsonWs s"

definition isDigit :: "char \<Rightarrow> bool" where
  "isDigit c = (48 \<le> (of_char c :: nat) \<and> (of_char c :: nat) \<le> 57)"

definition digitsValue :: "string \<Rightarrow> nat" where
  "digitsValue ds = foldl (\<lambda>a c. 10 * a + (of_char c - 48)) 0 ds"

definition hexVal :: "char \<Rightarrow> nat option" where
  "hexVal c =
     (let n = (of_char c :: nat) in
      if 48 \<le> n \<and> n \<le> 57 then Some (n - 48)
      else if 65 \<le> n \<and> n \<le> 70 then Some (n - 55)
      else if 97 \<le> n \<and> n \<le> 102 then Some (n - 87)
      else None)"

definition hex4 :: "char \<Rightarrow> char \<Rightarrow> char \<Rightarrow> char \<Rightarrow> nat option" where
  "hex4 a b c d =
     (case (hexVal a, hexVal b, hexVal c, hexVal d) of
        (Some h1, Some h2, Some h3, Some h4) \<Rightarrow> Some (((h1 * 16 + h2) * 16 + h3) * 16 + h4)
      | _ \<Rightarrow> None)"

definition unescape :: "char \<Rightarrow> char option" where
  "unescape e =
     (if e = CHR 0x22 then Some (CHR 0x22)
      else if e = CHR 0x5C then Some (CHR 0x5C)
      else if e = CHR ''/'' then Some (CHR ''/'')
      else if e = CHR ''b'' then Some (CHR 0x08)
      else if e = CHR ''f'' then Some (CHR 0x0C)
      else if e = CHR ''n'' then Some (CHR 0x0A)
      else if e = CHR ''r'' then Some (CHR 0x0D)
      else if e = CHR ''t'' then Some (CHR 0x09)
      else None)"

definition consChar ::
  "nat \<Rightarrow> (nat list \<times> string) option \<Rightarrow> (nat list \<times> string) option" where
  "consChar u r = map_option (\<lambda>(s, rest). (u # s, rest)) r"

text \<open>The characters of a string literal after its opening quote, up to the closing one.\<close>

fun parseChars :: "string \<Rightarrow> (nat list \<times> string) option" where
  "parseChars [] = None"
| "parseChars (c # r) =
     (if c = CHR 0x22 then Some ([], r)
      else if c = CHR 0x5C then
        (case r of
           [] \<Rightarrow> None
         | e # r1 \<Rightarrow>
             if e = CHR ''u'' then
               (case r1 of
                  h1 # h2 # h3 # h4 # r2 \<Rightarrow>
                    (case hex4 h1 h2 h3 h4 of
                       None \<Rightarrow> None
                     | Some n \<Rightarrow> consChar n (parseChars r2))
                | _ \<Rightarrow> None)
             else
               (case unescape e of
                  None \<Rightarrow> None
                | Some ch \<Rightarrow> consChar (of_char ch) (parseChars r1)))
      else if (of_char c :: nat) < 32 then None
      else consChar (of_char c) (parseChars r))"

definition fraction :: "string \<Rightarrow> (string \<times> string) option" where
  "fraction s =
     (case s of
        [] \<Rightarrow> Some ([], [])
      | c # r \<Rightarrow>
          if c = CHR ''.'' then
            (if takeWhile isDigit r = [] then None
             else Some (takeWhile isDigit r, dropWhile isDigit r))
          else Some ([], s))"

definition exponent :: "string \<Rightarrow> (int \<times> string) option" where
  "exponent s =
     (case s of
        [] \<Rightarrow> Some (0, [])
      | c # r \<Rightarrow>
          if c = CHR ''e'' \<or> c = CHR ''E'' then
            (let negative = (case r of [] \<Rightarrow> False | g # _ \<Rightarrow> g = CHR ''-'');
                 signed = (case r of [] \<Rightarrow> False | g # _ \<Rightarrow> g = CHR ''-'' \<or> g = CHR ''+'');
                 r1 = (if signed then tl r else r)
             in if takeWhile isDigit r1 = [] then None
                else Some ((if negative then - int (digitsValue (takeWhile isDigit r1))
                            else int (digitsValue (takeWhile isDigit r1))),
                           dropWhile isDigit r1))
          else Some (0, s))"

definition pow10 :: "int \<Rightarrow> rat" where
  "pow10 e = (if 0 \<le> e then 10 ^ nat e else 1 / 10 ^ nat (- e))"

definition parseNumber :: "string \<Rightarrow> (rat \<times> string) option" where
  "parseNumber s =
     (let negative = (case s of [] \<Rightarrow> False | c # _ \<Rightarrow> c = CHR ''-'');
          s1 = (if negative then tl s else s);
          ip = (case s1 of [] \<Rightarrow> [] | c # _ \<Rightarrow> if c = CHR ''0'' then [c] else takeWhile isDigit s1)
      in if ip = [] then None
         else
           (case fraction (drop (length ip) s1) of
              None \<Rightarrow> None
            | Some (fp, s3) \<Rightarrow>
                (case exponent s3 of
                   None \<Rightarrow> None
                 | Some (ex, s4) \<Rightarrow>
                     Some ((if negative then - 1 else 1)
                             * (of_nat (digitsValue ip) + of_nat (digitsValue fp) / 10 ^ length fp)
                             * pow10 ex, s4))))"

text \<open>
  The fuel bounds the number of nested calls. parseJSON starts with more than twice the
  length of the text, which is never exhausted (parseJSON_fuel below).
\<close>

fun parseValue :: "nat \<Rightarrow> string \<Rightarrow> (json \<times> string) option"
  and parseElements :: "nat \<Rightarrow> string \<Rightarrow> (json list \<times> string) option"
  and parseMembers :: "nat \<Rightarrow> string \<Rightarrow> ((nat list \<times> json) list \<times> string) option" where
  "parseValue 0 s = None"
| "parseValue (Suc n) s =
     (case skipWs s of
        [] \<Rightarrow> None
      | c # r \<Rightarrow>
          if c = CHR ''['' then
            (case skipWs r of
               [] \<Rightarrow> None
             | d # r1 \<Rightarrow>
                 if d = CHR '']'' then Some (JArray [], r1)
                 else map_option (\<lambda>(vs, rest). (JArray vs, rest)) (parseElements n r))
          else if c = CHR ''{'' then
            (case skipWs r of
               [] \<Rightarrow> None
             | d # r1 \<Rightarrow>
                 if d = CHR ''}'' then Some (JObject [], r1)
                 else map_option (\<lambda>(kvs, rest). (JObject kvs, rest)) (parseMembers n r))
          else if c = CHR 0x22 then
            map_option (\<lambda>(str, rest). (JString str, rest)) (parseChars r)
          else if prefix ''true'' (c # r) then Some (JBool True, drop 4 (c # r))
          else if prefix ''false'' (c # r) then Some (JBool False, drop 5 (c # r))
          else if prefix ''null'' (c # r) then Some (JNull, drop 4 (c # r))
          else map_option (\<lambda>(q, rest). (JNumber q, rest)) (parseNumber (c # r)))"
| "parseElements 0 s = None"
| "parseElements (Suc n) s =
     (case parseValue n s of
        None \<Rightarrow> None
      | Some (v, r) \<Rightarrow>
          (case skipWs r of
             [] \<Rightarrow> None
           | c # r1 \<Rightarrow>
               if c = CHR '','' then map_option (\<lambda>(vs, rest). (v # vs, rest)) (parseElements n r1)
               else if c = CHR '']'' then Some ([v], r1)
               else None))"
| "parseMembers 0 s = None"
| "parseMembers (Suc n) s =
     (case skipWs s of
        [] \<Rightarrow> None
      | q # r \<Rightarrow>
          if q \<noteq> CHR 0x22 then None
          else
            (case parseChars r of
               None \<Rightarrow> None
             | Some (k, r1) \<Rightarrow>
                 (case skipWs r1 of
                    [] \<Rightarrow> None
                  | colon # r2 \<Rightarrow>
                      if colon \<noteq> CHR '':'' then None
                      else
                        (case parseValue n r2 of
                           None \<Rightarrow> None
                         | Some (v, r3) \<Rightarrow>
                             (case skipWs r3 of
                                [] \<Rightarrow> None
                              | c # r4 \<Rightarrow>
                                  if c = CHR '','' then
                                    map_option (\<lambda>(kvs, rest). ((k, v) # kvs, rest))
                                      (parseMembers n r4)
                                  else if c = CHR ''}'' then Some ([(k, v)], r4)
                                  else None)))))"

definition parseJSON :: "string \<Rightarrow> json option" where
  "parseJSON s =
     (case parseValue (Suc (2 * length s)) s of
        None \<Rightarrow> None
      | Some (v, r) \<Rightarrow> if skipWs r = [] then Some v else None)"

subsection \<open>identifyClothingItems\<close>

text \<open>
  Truthiness of a parsed value, for \<^verbatim>\<open>result.clothing_items || []\<close>. A number is
  falsy when its literal rounds to zero as a double: up to half the least subnormal.
\<close>

fun jsTruthy :: "json \<Rightarrow> bool" where
  "jsTruthy JNull = False"
| "jsTruthy (JBool b) = b"
| "jsTruthy (JNumber q) = (1 / 2 ^ 1075 < \<bar>q\<bar>)"
| "jsTruthy (JString s) = (s \<noteq> [])"
| "jsTruthy (JArray vs) = True"
| "jsTruthy (JObject kvs) = True"

text \<open>
  \<^verbatim>\<open>result.clothing_items\<close>: a TypeError on null, the last binding of the key in
  an object (JSON.parse keeps the last of duplicate keys), undefined (\<open>None\<close>) on
  every other value.
\<close>

fun clothing_items :: "json \<Rightarrow> error + json option" where
  "clothing_items JNull = Inl TypeError"
| "clothing_items (JObject kvs) = Inr (map_of (rev kvs) (codeUnits ''clothing_items''))"
| "clothing_items v = Inr None"

text \<open>
  \<^verbatim>\<open>/```json\s*|```\s*$/g\<close> from a position after the start of the string, where
  only the second alternative can match: three backquotes with nothing but white space
  up to the end of the string.
\<close>

fun stripClosingFence :: "string \<Rightarrow> string" where
  "stripClosingFence [] = []"
| "stripClosingFence (c # cs) =
     (if prefix ''```'' (c # cs) \<and> dropWhile isWhiteSpace (drop 3 (c # cs)) = [] then []
      else c # stripClosingFence cs)"

text \<open>\<^verbatim>\<open>jsonStr.replace(/^```json\s*|```\s*$/g, '')\<close>\<close>

definition stripFences :: "string \<Rightarrow> string" where
  "stripFences jsonStr =
     (if prefix ''```json'' jsonStr
      then stripClosingFence (dropWhile isWhiteSpace (drop 7 jsonStr))
      else stripClosingFence jsonStr)"

text \<open>The body of the try block after the remote call: lines 290 to 296.\<close>

definition identificationBody ::
  "(string \<Rightarrow> json option) \<Rightarrow> GenerateContentResponse \<Rightarrow> error + json" where
  "identificationBody parse response =
     (case responseText response of
        None \<Rightarrow> Inl TypeError
      | Some t \<Rightarrow>
          (let jsonStr = trim t;
               cleanedJsonStr = stripFences jsonStr
           in case parse cleanedJsonStr of
                None \<Rightarrow> Inl SyntaxError
              | Some result \<Rightarrow>
                  (case clothing_items result of
                     Inl e \<Rightarrow> Inl e
                   | Inr None \<Rightarrow> Inr (JArray [])
                   | Inr (Some v) \<Rightarrow> Inr (if jsTruthy v then v else JArray []))))"

text \<open>The body under its catch clause: the spec's interpretIdentification.\<close>

definition interpretIdentification ::
  "(string \<Rightarrow> json option) \<Rightarrow> GenerateContentResponse \<Rightarrow> json" where
  "interpretIdentification parse response =
     (case identificationBody parse response of Inl err \<Rightarrow> JArray [] | Inr v \<Rightarrow> v)"

text \<open>The request of lines 269 to 288.\<close>

definition identifyRequest :: "Part \<Rightarrow> GenerateContentParameters" where
  "identifyRequest imagePart =
     \<lparr>model = ''gemini-2.5-flash'',
      contents = [imagePart, textPart promptOfIdentify],
      config = ClothingItemsSchema\<rparr>"

text \<open>
  fileToPart is awaited before the try block opens; the remote call and the body are
  inside it.
\<close>

definition identifyClothingItems ::
  "('f, 'n) platform \<Rightarrow> 'f \<Rightarrow> 'f event list \<Rightarrow> (error + json) \<times> 'f event list" where
  "identifyClothingItems P imageFile tr =
     (case fileToPart P imageFile tr of
        (Inl e, tr1) \<Rightarrow> (Inl e, tr1)
      | (Inr imagePart, tr1) \<Rightarrow>
          (case callModel P (identifyRequest imagePart) tr1 of
             (Inl err, tr2) \<Rightarrow> (Inr (JArray []), tr2)
           | (Inr response, tr2) \<Rightarrow>
               (Inr (interpretIdentification (JSON_parse P) response), tr2)))"

section \<open>The clothing-swap panel (components/SwapPanel)\<close>

text \<open>
  The component's state hooks, in the order of the source. An object URL is a
  number: createObjectURL hands out a fresh one at every call.
\<close>

record 'f panel =
  clothingSource :: "('f \<times> nat) option"
  identifiedItems :: "string list"
  selectedItems :: "string list"
  isIdentifying :: bool
  error :: "string option"
  isDraggingOver :: bool

datatype urlEvent = Created nat | Revoked nat

text \<open>
  The component in its browser: the hook state; whether it is mounted;
  \<open>effectSource\<close>, the clothingSource that the clean-up function of the last committed
  effect has captured; \<open>pending\<close>, the identification calls awaited by a running
  handleFileSelect, each with its newSource; \<open>urlLog\<close>, the calls of createObjectURL
  and revokeObjectURL in order; \<open>nextUrl\<close>, the next fresh URL; \<open>applied\<close>, the calls
  of the onApplySwap callback.
\<close>

record 'f world =
  panel :: "'f panel"
  mounted :: bool
  effectSource :: "('f \<times> nat) option"
  pending :: "('f \<times> nat) list"
  urlLog :: "urlEvent list"
  nextUrl :: nat
  applied :: "('f \<times> string list) list"

definition revokeObjectURL :: "nat \<Rightarrow> 'f world \<Rightarrow> 'f world" where
  "revokeObjectURL u w = w\<lparr>urlLog := urlLog w @ [Revoked u]\<rparr>"

text \<open>
  The clean-up function of the effect (lines 26 to 30), over the clothingSource it
  captured.
\<close>

definition cleanup :: "('f \<times> nat) option \<Rightarrow> 'f world \<Rightarrow> 'f world" where
  "cleanup captured w = (case captured of None \<Rightarrow> w | Some (file, url) \<Rightarrow> revokeObjectURL url w)"

text \<open>
  React commits a render: the effect depends on clothingSource alone, so when that
  has changed React runs the clean-up of the previous effect and installs the new one.
  An unmounted component renders nothing.
\<close>

definition commit :: "'f world \<Rightarrow> 'f world" where
  "commit w =
     (if mounted w \<and> clothingSource (panel w) \<noteq> effectSource w
      then (cleanup (effectSource w) w)\<lparr>effectSource := clothingSource (panel w)\<rparr>
      else w)"

text \<open>A state setter changes nothing once the component is unmounted.\<close>

definition setState :: "('f panel \<Rightarrow> 'f panel) \<Rightarrow> 'f world \<Rightarrow> 'f world" where
  "setState f w = (if mounted w then w\<lparr>panel := f (panel w)\<rparr> else w)"

definition initialWorld :: "'f world" where
  "initialWorld =
     \<lparr>panel = \<lparr>clothingSource = None, identifiedItems = [], selectedItems = [],
               isIdentifying = False, error = None, isDraggingOver = False\<rparr>,
      mounted = True, effectSource = None, pending = [], urlLog = [], nextUrl = 0,
      applied = []\<rparr>"

subsection \<open>The handlers\<close>

text \<open>
  handleFileSelect up to its await (lines 33 to 48): the setters of one event handler
  are batched into one render, so the intermediate \<^verbatim>\<open>setClothingSource(null)\<close>
  is never committed.
\<close>

definition handleFileSelect :: "'f list option \<Rightarrow> 'f world \<Rightarrow> 'f world" where
  "handleFileSelect files w =
     (case files of
        None \<Rightarrow> w
      | Some [] \<Rightarrow> w
      | Some (file # _) \<Rightarrow>
          (let url = nextUrl w;
               newSource = (file, url);
               w1 = w\<lparr>urlLog := urlLog w @ [Created url], nextUrl := Suc url,
                      pending := pending w @ [newSource]\<rparr>
           in commit
                (setState (\<lambda>p. p\<lparr>clothingSource := Some newSource, identifiedItems := [],
                                 selectedItems := [], error := None, isIdentifying := True\<rparr>)
                   w1)))"

text \<open>
  handleFileSelect after its await (lines 48 to 63), for the call that captured
  \<open>newSource\<close>: \<open>outcome\<close> is what identifyClothingItems resolved to (\<open>Inr\<close>) or
  rejected with (\<open>Inl\<close>).
\<close>

definition handleIdentified ::
  "('f \<times> nat) \<Rightarrow> 'e + string list \<Rightarrow> 'f world \<Rightarrow> 'f world" where
  "handleIdentified newSource outcome w =
     (let w1 = w\<lparr>pending := remove1 newSource (pending w)\<rparr>;
          w2 = (case outcome of
                  Inr items \<Rightarrow>
                    if length items > 0 then setState (\<lambda>p. p\<lparr>identifiedItems := items\<rparr>) w1
                    else revokeObjectURL (snd newSource)
                           (setState (\<lambda>p. p\<lparr>error := Some (''Could not identify any clothing items in the image. ''
                                                        @ ''Please try another one.''),
                                             clothingSource := None\<rparr>) w1)
                | Inl err \<Rightarrow>
                    revokeObjectURL (snd newSource)
                      (setState (\<lambda>p. p\<lparr>error := Some ''An error occurred while analyzing the image.'',
                                        clothingSource := None\<rparr>) w1))
      in commit (setState (\<lambda>p. p\<lparr>isIdentifying := False\<rparr>) w2))"

definition toggleItem :: "string \<Rightarrow> string list \<Rightarrow> string list" where
  "toggleItem itemToToggle prev =
     (if itemToToggle \<in> set prev
      then filter (\<lambda>item. item \<noteq> itemToToggle) prev
      else prev @ [itemToToggle])"

definition handleToggleItem :: "string \<Rightarrow> 'f world \<Rightarrow> 'f world" where
  "handleToggleItem itemToToggle w =
     commit (setState (\<lambda>p. p\<lparr>selectedItems := toggleItem itemToToggle (selectedItems p)\<rparr>) w)"

definition handleReset :: "'f world \<Rightarrow> 'f world" where
  "handleReset w =
     (let w1 = (case clothingSource (panel w) of
                  None \<Rightarrow> w
                | Some (file, url) \<Rightarrow> revokeObjectURL url w)
      in commit
           (setState (\<lambda>p. p\<lparr>clothingSource := None, identifiedItems := [], selectedItems := [],
                            error := None, isIdentifying := False\<rparr>) w1))"

definition handleApply :: "'f world \<Rightarrow> 'f world" where
  "handleApply w =
     (case clothingSource (panel w) of
        None \<Rightarrow> w
      | Some (file, url) \<Rightarrow>
          if length (selectedItems (panel w)) > 0
          then w\<lparr>applied := applied w @ [(file, selectedItems (panel w))]\<rparr>
          else w)"

text \<open>Unmounting runs the clean-up of the committed effect.\<close>

definition unmount :: "'f world \<Rightarrow> 'f world" where
  "unmount w = (cleanup (effectSource w) w)\<lparr>mounted := False\<rparr>"

subsection \<open>What is rendered\<close>

text \<open>Line 126: the uploader, with its file input and its drop zone.\<close>

definition uploaderShown :: "'f panel \<Rightarrow> bool" where
  "uploaderShown p = (clothingSource p = None \<and> \<not> isIdentifying p)"

text \<open>Line 135: the preview, the reset link and one toggle button per identified item.\<close>

definition itemsShown :: "'f panel \<Rightarrow> bool" where
  "itemsShown p = (clothingSource p \<noteq> None \<and> \<not> isIdentifying p \<and> length (identifiedItems p) > 0)"

text \<open>Line 164: the Apply Swap button; line 168: its disabled attribute.\<close>

definition applyShown :: "'f panel \<Rightarrow> bool" where
  "applyShown p = (clothingSource p \<noteq> None \<and> \<not> isIdentifying p)"

definition applyDisabled :: "bool \<Rightarrow> 'f panel \<Rightarrow> bool" where
  "applyDisabled isLoading p = (isLoading \<or> length (selectedItems p) = 0)"

subsection \<open>Executions\<close>

text \<open>
  What can happen to the component. \<open>ClickApply isLoading\<close> carries the value of the
  isLoading prop at the click; \<open>Identified newSource outcome\<close> is the settling of an
  awaited identification call.
\<close>

datatype ('f, 'e) uiEvent =
  SelectFiles "'f list option"
  | DragOver
  | DragLeave
  | DropFiles "'f list option"
  | Identified "'f \<times> nat" "'e + string list"
  | ClickItem string
  | ClickReset
  | ClickApply bool
  | Unmount

text \<open>
  An event acts only through a control that is rendered and enabled, a settling only
  on a call that is awaited; anything else leaves the world as it is.
\<close>

fun fire :: "('f, 'e) uiEvent \<Rightarrow> 'f world \<Rightarrow> 'f world" where
  "fire (SelectFiles files) w =
     (if mounted w \<and> uploaderShown (panel w) then handleFileSelect files w else w)"
| "fire DragOver w =
     (if mounted w \<and> uploaderShown (panel w)
      then commit (setState (\<lambda>p. p\<lparr>isDraggingOver := True\<rparr>) w) else w)"
| "fire DragLeave w =
     (if mounted w \<and> uploaderShown (panel w)
      then commit (setState (\<lambda>p. p\<lparr>isDraggingOver := False\<rparr>) w) else w)"
| "fire (DropFiles files) w =
     (if mounted w \<and> uploaderShown (panel w)
      then handleFileSelect files (setState (\<lambda>p. p\<lparr>isDraggingOver := False\<rparr>) w) else w)"
| "fire (Identified newSource outcome) w =
     (if newSource \<in> set (pending w) then handleIdentified newSource outcome w else w)"
| "fire (ClickItem item) w =
     (if mounted w \<and> itemsShown (panel w) \<and> item \<in> set (identifiedItems (panel w))
      then handleToggleItem item w else w)"
| "fire ClickReset w =
     (if mounted w \<and> itemsShown (panel w) then handleReset w else w)"
| "fire (ClickApply isLoading) w =
     (if mounted w \<and> applyShown (panel w) \<and> \<not> applyDisabled isLoading (panel w)
      then handleApply w else w)"
| "fire Unmount w = (if mounted w then unmount w else w)"

text \<open>The world after a sequence of events on the freshly mounted component.\<close>

definition run :: "('f, 'e) uiEvent list \<Rightarrow> 'f world" where
  "run evs = foldl (\<lambda>w ev. fire ev w) initialWorld evs"

text \<open>How often a URL has been released, and whether the mounted component holds it.\<close>

definition releases :: "'f world \<Rightarrow> nat \<Rightarrow> nat" where
  "releases w u = count_list (urlLog w) (Revoked u)"

definition held :: "'f world \<Rightarrow> nat \<Rightarrow> bool" where
  "held w u = (mounted w \<and> map_option snd (clothingSource (panel w)) = Some u)"

subsection \<open>The invariant of the executions\<close>

text \<open>
  While the component is mounted its effect has captured the current clothingSource,
  and an identification call is awaited exactly while isIdentifying is set, for the
  current source; after unmounting at most one call is still awaited.
\<close>

definition pendingOk :: "'f world \<Rightarrow> bool" where
  "pendingOk w =
     (if mounted w then
        effectSource w = clothingSource (panel w) \<and>
        (if isIdentifying (panel w)
         then (\<exists>src. pending w = [src] \<and> clothingSource (panel w) = Some src)
         else pending w = [])
      else length (pending w) \<le> 1)"

text \<open>
  The URLs below nextUrl are the created ones; a URL that the mounted component holds
  has not been released, every other created URL has been released once or twice, and
  the URL of a call that an unmounted component still awaits at most once.
\<close>

definition urlsOk :: "'f world \<Rightarrow> bool" where
  "urlsOk w =
     ((\<forall>u. nextUrl w \<le> u \<longrightarrow> Created u \<notin> set (urlLog w) \<and> releases w u = 0) \<and>
      (\<forall>f u. clothingSource (panel w) = Some (f, u) \<longrightarrow> u < nextUrl w) \<and>
      (\<forall>f u. (f, u) \<in> set (pending w) \<longrightarrow> u < nextUrl w) \<and>
      (\<forall>u. u < nextUrl w \<longrightarrow> Created u \<in> set (urlLog w)) \<and>
      (\<forall>u. held w u \<longrightarrow> releases w u = 0) \<and>
      (\<forall>u. u < nextUrl w \<longrightarrow> \<not> held w u \<longrightarrow> 1 \<le> releases w u \<and> releases w u \<le> 2) \<and>
      (\<forall>f u. \<not> mounted w \<longrightarrow> (f, u) \<in> set (pending w) \<longrightarrow> releases w u \<le> 1))"

definition panelInv :: "'f world \<Rightarrow> bool" where
  "panelInv w = (pendingOk w \<and> urlsOk w)"

text \<open>The hook state after a failed identification, with its message.\<close>

definition failedPanel :: "string \<Rightarrow> 'f panel \<Rightarrow> 'f panel" where
  "failedPanel msg p = p\<lparr>error := Some msg, clothingSource := None, isIdentifying := False\<rparr>"

section \<open>Concrete inputs\<close>

text \<open>An envelope with a block reason and an inline image part.\<close>

definition blockedWithImage :: GenerateContentResponse where
  "blockedWithImage =
     \<lparr>promptFeedback =
        Some \<lparr>blockReason = Some ''SAFETY'', blockReasonMessage = Some ''unsafe''\<rparr>,
      candidates =
        Some [\<lparr>content =
                 Some \<lparr>parts =
                         Some [\<lparr>inlineData =
                                  Some \<lparr>mimeType = Some ''image/png'', data = Some ''AAAA''\<rparr>,
                                partText = None\<rparr>]\<rparr>,
               finishReason = Some ''STOP''\<rparr>],
      responseText = None\<rparr>"

text \<open>Envelopes with neither: an abnormal stop, and a normal stop with a text answer.\<close>

definition stoppedOnSafety :: GenerateContentResponse where
  "stoppedOnSafety =
     \<lparr>promptFeedback = None,
      candidates = Some [\<lparr>content = None, finishReason = Some ''SAFETY''\<rparr>],
      responseText = None\<rparr>"

definition textOnly :: GenerateContentResponse where
  "textOnly =
     \<lparr>promptFeedback = Some \<lparr>blockReason = None, blockReasonMessage = None\<rparr>,
      candidates =
        Some [\<lparr>content = Some \<lparr>parts = Some [\<lparr>inlineData = None, partText = Some '' Sorry. ''\<rparr>]\<rparr>,
               finishReason = Some ''STOP''\<rparr>],
      responseText = Some '' Sorry. ''\<rparr>"






text \<open>
  Platforms over files named by strings: one whose file reader rejects, one whose
  reader yields a data URL without a comma, and one that reads a PNG and whose remote
  call rejects.
\<close>

definition unreadablePlatform :: "(string, nat) platform" where
  "unreadablePlatform =
     \<lparr>readAsDataURL = (\<lambda>tr file. Inl (Rejected ''NotReadableError'')),
      generateContent = (\<lambda>tr request. Inl (Rejected ''offline'')),
      JSON_parse = parseJSON,
      numberToString = (\<lambda>n. ''0'')\<rparr>"

definition emptyFilePlatform :: "(string, nat) platform" where
  "emptyFilePlatform =
     \<lparr>readAsDataURL = (\<lambda>tr file. Inr ''data:''),
      generateContent = (\<lambda>tr request. Inl (Rejected ''offline'')),
      JSON_parse = parseJSON,
      numberToString = (\<lambda>n. ''0'')\<rparr>"

definition offlinePlatform :: "(string, nat) platform" where
  "offlinePlatform =
     \<lparr>readAsDataURL = (\<lambda>tr file. Inr ''data:image/png;base64,AAAA''),
      generateContent = (\<lambda>tr request. Inl (Rejected ''offline'')),
      JSON_parse = parseJSON,
      numberToString = (\<lambda>n. ''0'')\<rparr>"

text \<open>An upload whose identification finds nothing, and the scenario of the spec.\<close>

definition failedUpload :: "(string, unit) uiEvent list" where
  "failedUpload = [SelectFiles (Some [''B'']), Identified (''B'', 0) (Inr [])]"

definition uploadThenReset :: "(string, unit) uiEvent list" where
  "uploadThenReset =
     [SelectFiles (Some [''A'']), Identified (''A'', 0) (Inr [''shirt'']), ClickReset]"

definition shirtAndShorts :: "(string, unit) uiEvent list" where
  "shirtAndShorts =
     [SelectFiles (Some [''A'']), Identified (''A'', 0) (Inr [''shirt'', ''shorts'']),
      ClickItem ''shirt'', ClickItem ''shirt'']"

section \<open>Properties of handleApiResponse\<close>

lemma stopped_neq_noImage: "stoppedMessage c fr \<noteq> noImageMessage c' tf"
  by (simp add: stoppedMessage_def noImageMessage_def)

lemma handleApiResponse_no_image:
  assumes "\<not> truthy (blockReasonOf response)"
    and "imagePartFromResponse response = None"
  shows "handleApiResponse response context = noImageOutcome response context"
  using assms
  by (auto simp: handleApiResponse_def imageOutcome_def blockReasonOf_def split: option.splits)

text \<open>
  C1. An envelope that carries a block reason (a non-empty string, as every value of
  the SDK's enum is) makes handleApiResponse throw the error with the blocked
  message, built from the reason and the optional message, whatever the candidates,
  the parts and the other fields are: an inline image part is never looked at and no
  data URL is returned.
\<close>

theorem handleApiResponse_block_first:
  assumes "promptFeedback response = Some pf"
    and "blockReason pf = Some reason" and "reason \<noteq> []"
  shows "handleApiResponse response context =
           Inl (Error (''Request was blocked. Reason: '' @ reason @ ''. ''
                        @ (case blockReasonMessage pf of None \<Rightarrow> [] | Some m \<Rightarrow> m)))
         \<and> (\<forall>url. handleApiResponse response context \<noteq> Inr url)"
  using assms
  by (simp add: handleApiResponse_def truthy_def blockedMessage_def interp_def orEmpty_def)

theorem handleApiResponse_block_first_witness:
  "imagePartFromResponse blockedWithImage
     = Some \<lparr>inlineData = Some \<lparr>mimeType = Some ''image/png'', data = Some ''AAAA''\<rparr>,
             partText = None\<rparr>
   \<and> handleApiResponse blockedWithImage ''edit''
       = Inl (Error ''Request was blocked. Reason: SAFETY. unsafe'')"
  using handleApiResponse_block_first [of blockedWithImage
      "\<lparr>blockReason = Some ''SAFETY'', blockReasonMessage = Some ''unsafe''\<rparr>"
      "''SAFETY''" "''edit''"]
  by (simp add: blockedWithImage_def imagePartFromResponse_def firstCandidate_def)

text \<open>
  C4. An envelope without a block reason and without an inline image part: the error
  thrown is the abnormal-stop error exactly when the first candidate has a finish
  reason that is a non-empty string other than STOP, and then it carries that reason;
  with no finish reason, or STOP, it is the no-image error, whose message quotes the
  trimmed text of the envelope when that is not empty.
\<close>

theorem handleApiResponse_without_image:
  assumes "\<not> truthy (blockReasonOf response)"
    and "imagePartFromResponse response = None"
  shows "((\<exists>fr. handleApiResponse response context = Inl (Error (stoppedMessage context fr)))
            \<longleftrightarrow> (\<exists>code. finishReasonOf response = Some code \<and> code \<noteq> [] \<and> code \<noteq> ''STOP''))
       \<and> (\<forall>code. finishReasonOf response = Some code \<and> code \<noteq> [] \<and> code \<noteq> ''STOP'' \<longrightarrow>
             handleApiResponse response context =
               Inl (Error (''Image generation for '' @ context
                  @ '' stopped unexpectedly. Reason: '' @ code
                  @ ''. This often relates to safety settings.'')))
       \<and> (finishReasonOf response = None \<or> finishReasonOf response = Some ''STOP''
            \<or> finishReasonOf response = Some [] \<longrightarrow>
             handleApiResponse response context =
               Inl (Error (noImageMessage context (map_option trim (responseText response)))))
       \<and> (\<forall>t. responseText response = Some t \<and> trim t \<noteq> [] \<longrightarrow>
             noImageMessage context (map_option trim (responseText response)) =
               ''The AI model did not return an image for the '' @ context
                 @ ''. The model responded with text: '' @ dq @ trim t @ dq)"
proof -
  have h: "handleApiResponse response context = noImageOutcome response context"
    using assms by (rule handleApiResponse_no_image)
  show ?thesis
    unfolding h
    by (auto simp: noImageOutcome_def Let_def truthy_def stopped_neq_noImage stoppedMessage_def
        interp_def noImageMessage_def split: option.splits)
qed

theorem handleApiResponse_without_image_witness:
  "handleApiResponse stoppedOnSafety ''edit''
     = Inl (Error (''Image generation for edit stopped unexpectedly. Reason: SAFETY. ''
                    @ ''This often relates to safety settings.''))
   \<and> handleApiResponse textOnly ''filter''
     = Inl (Error (''The AI model did not return an image for the filter. ''
                    @ ''The model responded with text: '' @ dq @ ''Sorry.'' @ dq))"
  using handleApiResponse_without_image [of stoppedOnSafety "''edit''"]
    handleApiResponse_without_image [of textOnly "''filter''"]
  by (simp add: stoppedOnSafety_def textOnly_def blockReasonOf_def imagePartFromResponse_def
      firstCandidate_def finishReasonOf_def truthy_def trim_def isWhiteSpace_def
      noImageMessage_def dq_def)

section \<open>Properties of fileToPart and of the swap guard\<close>

lemma splitOn_no_sep: "sep \<notin> set s \<Longrightarrow> splitOn sep s = [s]"
  by (induction s) auto

lemma splitOn_append: "sep \<notin> set a \<Longrightarrow> splitOn sep (a @ sep # b) = a # splitOn sep b"
  by (induction a) auto

lemma lazyToSemicolon_append:
  "CHR '';'' \<notin> set m \<Longrightarrow> CHR 0x0A \<notin> set m \<Longrightarrow> CHR 0x0D \<notin> set m
     \<Longrightarrow> lazyToSemicolon (m @ CHR '';'' # r) = Some m"
  by (induction m) (auto simp: isLineTerminator_def)

lemma mimeMatch_data:
  "CHR '';'' \<notin> set m \<Longrightarrow> CHR 0x0A \<notin> set m \<Longrightarrow> CHR 0x0D \<notin> set m
     \<Longrightarrow> mimeMatch (''data:'' @ m @ '';base64'') = Some m"
  using lazyToSemicolon_append [of m "''base64''"] by simp

lemma partOfDataUrl_wellformed:
  assumes "m \<noteq> []" "CHR '';'' \<notin> set m" "CHR '','' \<notin> set m"
    and "CHR 0x0A \<notin> set m" "CHR 0x0D \<notin> set m" "CHR '','' \<notin> set payload"
  shows "partOfDataUrl (''data:'' @ m @ '';base64,'' @ payload) =
           Inr \<lparr>inlineData = Some \<lparr>mimeType = Some m, data = Some payload\<rparr>, partText = None\<rparr>"
proof -
  have "CHR '','' \<notin> set (''data:'' @ m @ '';base64'')"
    using assms by simp
  from splitOn_append [OF this, of payload]
  have "splitOn CHR '','' (''data:'' @ m @ '';base64,'' @ payload)
          = [''data:'' @ m @ '';base64'', payload]"
    using assms by (simp add: splitOn_no_sep)
  then show ?thesis
    using mimeMatch_data [of m] assms by (simp add: partOfDataUrl_def)
qed

lemma partOfDataUrl_error:
  "(\<exists>e. partOfDataUrl dataUrl = Inl e) \<longleftrightarrow>
     (length (splitOn CHR '','' dataUrl) < 2
      \<or> mimeMatch (hd (splitOn CHR '','' dataUrl)) = None
      \<or> mimeMatch (hd (splitOn CHR '','' dataUrl)) = Some [])"
  by (auto simp: partOfDataUrl_def split: list.splits option.splits)

lemma partOfDataUrl_invalid:
  "length (splitOn CHR '','' dataUrl) < 2 \<Longrightarrow> partOfDataUrl dataUrl = Inl (Error ''Invalid data URL'')"
  by (auto simp: partOfDataUrl_def split: list.splits)

lemma partOfDataUrl_no_mime:
  assumes "2 \<le> length (splitOn CHR '','' dataUrl)"
    and "mimeMatch (hd (splitOn CHR '','' dataUrl)) = None
         \<or> mimeMatch (hd (splitOn CHR '','' dataUrl)) = Some []"
  shows "partOfDataUrl dataUrl = Inl (Error ''Could not parse MIME type from data URL'')"
  using assms by (auto simp: partOfDataUrl_def split: list.splits)

lemma partOfDataUrl_split:
  assumes "splitOn CHR '','' dataUrl = header # payload # rest"
    and "mimeMatch header = Some m" and "m \<noteq> []"
  shows "partOfDataUrl dataUrl =
           Inr \<lparr>inlineData = Some \<lparr>mimeType = Some m, data = Some payload\<rparr>, partText = None\<rparr>"
  using assms by (simp add: partOfDataUrl_def)

lemma fileToPart_read:
  "readAsDataURL P tr file = Inr dataUrl \<Longrightarrow> fst (fileToPart P file tr) = partOfDataUrl dataUrl"
  by (simp add: fileToPart_def)

lemma fileToPart_wellformed:
  assumes "readAsDataURL P tr file = Inr (''data:'' @ m @ '';base64,'' @ payload)"
    and "m \<noteq> []" "CHR '';'' \<notin> set m" "CHR '','' \<notin> set m"
    and "CHR 0x0A \<notin> set m" "CHR 0x0D \<notin> set m" "CHR '','' \<notin> set payload"
  shows "fst (fileToPart P file tr) =
           Inr \<lparr>inlineData = Some \<lparr>mimeType = Some m, data = Some payload\<rparr>, partText = None\<rparr>"
  unfolding fileToPart_read [OF assms(1)]
  by (rule partOfDataUrl_wellformed) fact+

lemma fileToPart_rejected:
  "readAsDataURL P tr file = Inl e \<Longrightarrow> fst (fileToPart P file tr) = Inl e"
  by (simp add: fileToPart_def)

lemma fileToPart_trace: "snd (fileToPart P file tr) = tr @ [FileRead file]"
  by (simp add: fileToPart_def split: sum.splits)

text \<open>
  C9. fileToPart reads the file once. It fails exactly when the read is rejected, when
  the data URL has fewer than two comma-separated segments (the error Invalid data
  URL), or when the header has no match of the MIME pattern with a non-empty group
  (the error Could not parse MIME type). Otherwise it returns the part that pairs the
  matched media type with the second segment; for a data URL of the form
  data:TYPE;base64,PAYLOAD these are TYPE and PAYLOAD.
\<close>

theorem fileToPart_outcome:
  "((\<exists>e. fst (fileToPart P file tr) = Inl e) \<longleftrightarrow>
      (\<exists>e. readAsDataURL P tr file = Inl e)
      \<or> (\<exists>dataUrl. readAsDataURL P tr file = Inr dataUrl
            \<and> (length (splitOn CHR '','' dataUrl) < 2
               \<or> mimeMatch (hd (splitOn CHR '','' dataUrl)) = None
               \<or> mimeMatch (hd (splitOn CHR '','' dataUrl)) = Some [])))
   \<and> (\<forall>e. readAsDataURL P tr file = Inl e \<longrightarrow> fst (fileToPart P file tr) = Inl e)
   \<and> (\<forall>dataUrl. readAsDataURL P tr file = Inr dataUrl
          \<and> length (splitOn CHR '','' dataUrl) < 2 \<longrightarrow>
          fst (fileToPart P file tr) = Inl (Error ''Invalid data URL''))
   \<and> (\<forall>dataUrl. readAsDataURL P tr file = Inr dataUrl
          \<and> 2 \<le> length (splitOn CHR '','' dataUrl)
          \<and> (mimeMatch (hd (splitOn CHR '','' dataUrl)) = None
             \<or> mimeMatch (hd (splitOn CHR '','' dataUrl)) = Some []) \<longrightarrow>
          fst (fileToPart P file tr) = Inl (Error ''Could not parse MIME type from data URL''))
   \<and> (\<forall>dataUrl header payload rest m.
          readAsDataURL P tr file = Inr dataUrl
          \<and> splitOn CHR '','' dataUrl = header # payload # rest
          \<and> mimeMatch header = Some m \<and> m \<noteq> [] \<longrightarrow>
          fst (fileToPart P file tr) =
            Inr \<lparr>inlineData = Some \<lparr>mimeType = Some m, data = Some payload\<rparr>, partText = None\<rparr>)
   \<and> (\<forall>m payload.
          readAsDataURL P tr file = Inr (''data:'' @ m @ '';base64,'' @ payload)
          \<and> m \<noteq> [] \<and> CHR '';'' \<notin> set m \<and> CHR '','' \<notin> set m
          \<and> CHR 0x0A \<notin> set m \<and> CHR 0x0D \<notin> set m \<and> CHR '','' \<notin> set payload \<longrightarrow>
          fst (fileToPart P file tr) =
            Inr \<lparr>inlineData = Some \<lparr>mimeType = Some m, data = Some payload\<rparr>, partText = None\<rparr>)
   \<and> snd (fileToPart P file tr) = tr @ [FileRead file]"
proof -
  have a: "(\<exists>e. fst (fileToPart P file tr) = Inl e) \<longleftrightarrow>
      (\<exists>e. readAsDataURL P tr file = Inl e)
      \<or> (\<exists>dataUrl. readAsDataURL P tr file = Inr dataUrl
            \<and> (length (splitOn CHR '','' dataUrl) < 2
               \<or> mimeMatch (hd (splitOn CHR '','' dataUrl)) = None
               \<or> mimeMatch (hd (splitOn CHR '','' dataUrl)) = Some []))"
  proof (cases "readAsDataURL P tr file")
    case (Inl e)
    then show ?thesis by (simp add: fileToPart_rejected)
  next
    case (Inr dataUrl)
    then show ?thesis
      using partOfDataUrl_error [of dataUrl] by (simp add: fileToPart_read)
  qed
  have b: "\<forall>e. readAsDataURL P tr file = Inl e \<longrightarrow> fst (fileToPart P file tr) = Inl e"
    by (simp add: fileToPart_rejected)
  have c: "\<forall>dataUrl. readAsDataURL P tr file = Inr dataUrl
          \<and> length (splitOn CHR '','' dataUrl) < 2 \<longrightarrow>
          fst (fileToPart P file tr) = Inl (Error ''Invalid data URL'')"
    by (simp add: fileToPart_read partOfDataUrl_invalid)
  have d: "\<forall>dataUrl. readAsDataURL P tr file = Inr dataUrl
          \<and> 2 \<le> length (splitOn CHR '','' dataUrl)
          \<and> (mimeMatch (hd (splitOn CHR '','' dataUrl)) = None
             \<or> mimeMatch (hd (splitOn CHR '','' dataUrl)) = Some []) \<longrightarrow>
          fst (fileToPart P file tr) = Inl (Error ''Could not parse MIME type from data URL'')"
    using partOfDataUrl_no_mime by (auto simp: fileToPart_read)
  have e: "\<forall>dataUrl header payload rest m.
          readAsDataURL P tr file = Inr dataUrl
          \<and> splitOn CHR '','' dataUrl = header # payload # rest
          \<and> mimeMatch header = Some m \<and> m \<noteq> [] \<longrightarrow>
          fst (fileToPart P file tr) =
            Inr \<lparr>inlineData = Some \<lparr>mimeType = Some m, data = Some payload\<rparr>, partText = None\<rparr>"
    using partOfDataUrl_split by (auto simp: fileToPart_read)
  have f: "\<forall>m payload.
          readAsDataURL P tr file = Inr (''data:'' @ m @ '';base64,'' @ payload)
          \<and> m \<noteq> [] \<and> CHR '';'' \<notin> set m \<and> CHR '','' \<notin> set m
          \<and> CHR 0x0A \<notin> set m \<and> CHR 0x0D \<notin> set m \<and> CHR '','' \<notin> set payload \<longrightarrow>
          fst (fileToPart P file tr) =
            Inr \<lparr>inlineData = Some \<lparr>mimeType = Some m, data = Some payload\<rparr>, partText = None\<rparr>"
    by (intro allI impI, elim conjE, rule fileToPart_wellformed, assumption+)
  show ?thesis
    by (intro conjI a b c d e f fileToPart_trace)
qed

theorem fileToPart_outcome_witness:
  "fst (fileToPart offlinePlatform ''photo.png'' []) =
     Inr \<lparr>inlineData = Some \<lparr>mimeType = Some ''image/png'', data = Some ''AAAA''\<rparr>,
          partText = None\<rparr>
   \<and> fst (fileToPart emptyFilePlatform ''empty.png'' []) = Inl (Error ''Invalid data URL'')
   \<and> fst (fileToPart unreadablePlatform ''gone.png'' []) = Inl (Rejected ''NotReadableError'')"
  using fileToPart_outcome [of offlinePlatform "''photo.png''" "[]"]
    fileToPart_outcome [of emptyFilePlatform "''empty.png''" "[]"]
    fileToPart_outcome [of unreadablePlatform "''gone.png''" "[]"]
  by (simp add: offlinePlatform_def emptyFilePlatform_def unreadablePlatform_def
      fileToPart_def partOfDataUrl_def isLineTerminator_def)

lemma generateSwappedImage_reads_first:
  "itemsToSwap \<noteq> [] \<Longrightarrow>
     \<exists>more. snd (generateSwappedImage P personImage clothingSourceImage itemsToSwap tr)
              = tr @ FileRead personImage # more"
  by (auto simp: generateSwappedImage_def fileToPart_def callModel_def Let_def
      split: sum.splits prod.splits)

text \<open>
  C6. With an empty list of items generateSwappedImage throws the error No clothing
  items were selected to swap, for every pair of files, every platform and every
  trace so far, and the trace comes back as it was: no file is read and the model is
  not called.
\<close>

theorem generateSwappedImage_empty_selection:
  "generateSwappedImage P personImage clothingSourceImage [] tr =
     (Inl (Error ''No clothing items were selected to swap.''), tr)"
  by (simp add: generateSwappedImage_def)

section \<open>Properties of the prompts\<close>

lemma sublist_skip: "sublist xs ys \<Longrightarrow> sublist xs (zs @ ys)"
  by (metis sublist_append_leftI sublist_order.order_trans)

lemma sublist_here3: "sublist (a @ n1 @ b @ n2 @ c) (a @ n1 @ b @ n2 @ c @ rest)"
  by (metis append.assoc sublist_append_rightI)

lemma not_sublist_part: "sublist part pat \<Longrightarrow> \<not> sublist part s \<Longrightarrow> \<not> sublist pat s"
  using sublist_order.order_trans by blast

text \<open>A pattern without the separator lies on one side of it.\<close>

lemma no_sublist_sep:
  assumes c: "c \<notin> set pat" and a: "\<not> sublist pat a" and b: "\<not> sublist pat b"
  shows "\<not> sublist pat (a @ c # b)"
proof -
  from a have ne: "pat \<noteq> []" by auto
  have "\<not> prefix pat (c # b)"
    using c ne by (cases pat) (auto simp: prefix_Cons)
  with b have 1: "\<not> sublist pat (c # b)"
    by (simp add: sublist_Cons_right)
  have 2: "\<not> (\<exists>xs1 xs2. pat = xs1 @ xs2 \<and> suffix xs1 a \<and> prefix xs2 (c # b))"
  proof
    assume "\<exists>xs1 xs2. pat = xs1 @ xs2 \<and> suffix xs1 a \<and> prefix xs2 (c # b)"
    then obtain xs1 xs2 where p: "pat = xs1 @ xs2" and s: "suffix xs1 a"
      and q: "prefix xs2 (c # b)"
      by blast
    show False
    proof (cases xs2)
      case Nil
      with p s have "suffix pat a" by simp
      then have "sublist pat a" by (rule suffix_imp_sublist)
      with a show False by simp
    next
      case (Cons x xs)
      with q have "x = c" by (simp add: prefix_Cons)
      with Cons p c show False by simp
    qed
  qed
  from a 1 2 show ?thesis
    unfolding sublist_append by blast
qed

lemma no_sublist_line:
  "CHR 0x0A \<notin> set pat \<Longrightarrow> \<not> sublist pat a \<Longrightarrow> \<not> sublist pat b
     \<Longrightarrow> \<not> sublist pat (a @ nl @ b)"
  unfolding nl_def using no_sublist_sep [of "CHR 0x0A" pat a b] by simp

lemma no_sublist_blank:
  "CHR 0x0A \<notin> set pat \<Longrightarrow> pat \<noteq> [] \<Longrightarrow> \<not> sublist pat b \<Longrightarrow> \<not> sublist pat (nl @ b)"
  unfolding nl_def using no_sublist_sep [of "CHR 0x0A" pat "[]" b] by simp

lemma no_sublist_line3:
  "CHR 0x0A \<notin> set pat \<Longrightarrow> \<not> sublist pat (a1 @ a2 @ a3) \<Longrightarrow> \<not> sublist pat b
     \<Longrightarrow> \<not> sublist pat (a1 @ a2 @ a3 @ nl @ b)"
  using no_sublist_line [of pat "a1 @ a2 @ a3" b] by simp

lemma no_sublist_line4:
  "CHR 0x0A \<notin> set pat \<Longrightarrow> \<not> sublist pat (a1 @ a2 @ a3 @ a4) \<Longrightarrow> \<not> sublist pat b
     \<Longrightarrow> \<not> sublist pat (a1 @ a2 @ a3 @ a4 @ nl @ b)"
  using no_sublist_line [of pat "a1 @ a2 @ a3 @ a4" b] by simp

lemmas no_sublist_lines = no_sublist_line no_sublist_blank no_sublist_line3 no_sublist_line4

lemma policy_heading: "sublist ''Safety & Ethics Policy:'' skinToneAndRacePolicy"
  unfolding skinToneAndRacePolicy_def by (rule sublist_append_rightI)

lemma policy_skin_tone:
  "sublist ''- You MUST fulfill requests to adjust skin tone'' skinToneAndRacePolicy"
proof -
  have "sublist ''- You MUST fulfill requests to adjust skin tone'' ''- You MUST fulfill requests to adjust skin tone, such as 'give me a tan', 'make my skin darker', or 'make my skin lighter'. These are considered standard photo enhancements.''"
    by (simp add: sublist_Cons_right)
  then have f: "sublist ''- You MUST fulfill requests to adjust skin tone'' (''- You MUST fulfill requests to adjust skin tone, such as 'give me a tan', 'make my skin darker', or 'make my skin lighter'. These are considered standard photo enhancements.'' @ nl @ rest)" for rest
    using sublist_append_rightI sublist_order.order_trans by blast
  show ?thesis
    unfolding skinToneAndRacePolicy_def by (rule sublist_skip, rule sublist_skip, rule f)
qed

lemma swap_shirt_no_heading:
  "\<not> sublist ''Safety & Ethics Policy:'' (promptOfSwap [''shirt''])"
  unfolding promptOfSwap_def
  by (intro no_sublist_lines) (simp_all add: sublist_Cons_right)

lemma swap_shirt_no_race: "\<not> sublist ''race'' (promptOfSwap [''shirt''])"
  unfolding promptOfSwap_def
  by (intro no_sublist_lines) (simp_all add: sublist_Cons_right)

lemma swap_shirt_no_ethnic: "\<not> sublist ''ethnic'' (promptOfSwap [''shirt''])"
  unfolding promptOfSwap_def
  by (intro no_sublist_lines) (simp_all add: sublist_Cons_right)

lemma filter_sepia_no_skin_tone:
  "\<not> sublist ''- You MUST fulfill requests to adjust skin tone'' (promptOfFilter ''sepia'')"
  unfolding promptOfFilter_def
  by (intro no_sublist_lines) (simp_all add: sublist_Cons_right dq_def)

lemma filter_sepia_no_skin: "\<not> sublist ''skin'' (promptOfFilter ''sepia'')"
  unfolding promptOfFilter_def
  by (intro no_sublist_lines) (simp_all add: sublist_Cons_right dq_def)

text \<open>
  C2, as the claim states it, fails: the prompt of the swap for the item shirt does
  not contain the clause, nor its heading, nor the words race or ethnic at all; the
  prompt of the filter sepia has a clause under the same heading but not this one,
  and says nothing about skin.
\<close>

theorem policy_clause_counterexample:
  "\<not> sublist skinToneAndRacePolicy (promptOfSwap [''shirt''])
   \<and> \<not> sublist ''race'' (promptOfSwap [''shirt''])
   \<and> \<not> sublist ''ethnic'' (promptOfSwap [''shirt''])
   \<and> \<not> sublist skinToneAndRacePolicy (promptOfFilter ''sepia'')
   \<and> \<not> sublist ''skin'' (promptOfFilter ''sepia'')"
  using not_sublist_part [OF policy_heading swap_shirt_no_heading]
    not_sublist_part [OF policy_skin_tone filter_sepia_no_skin_tone]
    swap_shirt_no_race swap_shirt_no_ethnic filter_sepia_no_skin
  by blast

text \<open>
  C2, amended. The clause that fulfils skin-tone requests and refuses a change of race
  or ethnicity stands verbatim in the prompt of the edit and in the prompt of the
  adjustment, for every instruction and every rendering of the hotspot; the prompt of
  the filter carries its own fixed clause, which refuses a change of race, for every
  filter instruction.
\<close>

theorem policy_clause_in_prompts:
  "sublist skinToneAndRacePolicy (promptOfEdit userPrompt hx hy)
   \<and> sublist skinToneAndRacePolicy (promptOfAdjust adjustmentPrompt)
   \<and> sublist filterRacePolicy (promptOfFilter filterPrompt)"
proof (intro conjI)
  show "sublist skinToneAndRacePolicy (promptOfEdit userPrompt hx hy)"
    unfolding promptOfEdit_def skinToneAndRacePolicy_def
    by (rule sublist_here3 | rule sublist_skip)+
  show "sublist skinToneAndRacePolicy (promptOfAdjust adjustmentPrompt)"
    unfolding promptOfAdjust_def skinToneAndRacePolicy_def
    by (rule sublist_here3 | rule sublist_skip)+
  show "sublist filterRacePolicy (promptOfFilter filterPrompt)"
    unfolding promptOfFilter_def filterRacePolicy_def
    by (rule sublist_here3 | rule sublist_skip)+
qed

text \<open>The prompts are what the operations send: the request that follows a good read.\<close>

lemma generateEditedImage_request:
  assumes "fst (fileToPart P originalImage tr) = Inr part"
  shows "snd (generateEditedImage P originalImage userPrompt hotspot tr) =
           tr @ [FileRead originalImage,
                 ModelCall \<lparr>model = ''gemini-2.5-flash-image-preview'',
                            contents = [part, textPart (promptOfEdit userPrompt
                                          (numberToString P (fst hotspot))
                                          (numberToString P (snd hotspot)))],
                            config = ImageAndTextModalities\<rparr>]"
  using assms
  by (auto simp: generateEditedImage_def fileToPart_def callModel_def Let_def
      split: sum.splits prod.splits)

lemma generateAdjustedImage_request:
  assumes "fst (fileToPart P originalImage tr) = Inr part"
  shows "snd (generateAdjustedImage P originalImage adjustmentPrompt tr) =
           tr @ [FileRead originalImage,
                 ModelCall \<lparr>model = ''gemini-2.5-flash-image-preview'',
                            contents = [part, textPart (promptOfAdjust adjustmentPrompt)],
                            config = ImageAndTextModalities\<rparr>]"
  using assms
  by (auto simp: generateAdjustedImage_def fileToPart_def callModel_def Let_def
      split: sum.splits prod.splits)

lemma generateFilteredImage_request:
  assumes "fst (fileToPart P originalImage tr) = Inr part"
  shows "snd (generateFilteredImage P originalImage filterPrompt tr) =
           tr @ [FileRead originalImage,
                 ModelCall \<lparr>model = ''gemini-2.5-flash-image-preview'',
                            contents = [part, textPart (promptOfFilter filterPrompt)],
                            config = ImageAndTextModalities\<rparr>]"
  using assms
  by (auto simp: generateFilteredImage_def fileToPart_def callModel_def Let_def
      split: sum.splits prod.splits)

lemma generateSwappedImage_request:
  assumes "itemsToSwap \<noteq> []"
    and "fst (fileToPart P personImage tr) = Inr part1"
    and "fst (fileToPart P clothingSourceImage (tr @ [FileRead personImage])) = Inr part2"
  shows "snd (generateSwappedImage P personImage clothingSourceImage itemsToSwap tr) =
           tr @ [FileRead personImage, FileRead clothingSourceImage,
                 ModelCall \<lparr>model = ''gemini-2.5-flash-image-preview'',
                            contents = [part1, part2, textPart (promptOfSwap itemsToSwap)],
                            config = ImageAndTextModalities\<rparr>]"
  using assms
  by (auto simp: generateSwappedImage_def fileToPart_def callModel_def Let_def
      split: sum.splits prod.splits)

section \<open>Properties of the model of JSON.parse\<close>

text \<open>
  Every function of the parser returns a rest that is shorter than its input, and from
  twice the length of the text on the fuel no longer matters: a result \<open>None\<close> of
  parseJSON is a syntax error, never an exhausted fuel.
\<close>

lemma skipWs_length: "length (skipWs s) \<le> length s"
  by (simp add: skipWs_def length_dropWhile_le)

lemma consChar_Some:
  "consChar c x = Some (k, r) \<Longrightarrow> \<exists>k'. x = Some (k', r)"
  by (cases x) (auto simp: consChar_def)

lemma parseChars_shorter: "parseChars s = Some (k, r) \<Longrightarrow> length r < length s"
  by (induction s arbitrary: k r rule: parseChars.induct)
    (fastforce split: if_splits list.splits option.splits dest!: consChar_Some)+

lemma fraction_shorter: "fraction s = Some (fp, r) \<Longrightarrow> length r \<le> length s"
  by (auto simp: fraction_def length_dropWhile_le le_SucI split: list.splits if_splits)

lemma exponent_shorter: "exponent s = Some (ex, r) \<Longrightarrow> length r \<le> length s"
  by (cases s)
    (auto simp: exponent_def Let_def length_dropWhile_le le_SucI
      intro: order_trans [OF length_dropWhile_le] split: list.splits if_splits)

lemma parseNumber_shorter:
  assumes "parseNumber s = Some (q, r)"
  shows "length r < length s"
proof -
  let ?s1 = "if (case s of [] \<Rightarrow> False | c # _ \<Rightarrow> c = CHR ''-'') then tl s else s"
  let ?ip = "case ?s1 of [] \<Rightarrow> [] | c # _ \<Rightarrow> if c = CHR ''0'' then [c] else takeWhile isDigit ?s1"
  from assms have ne: "?ip \<noteq> []"
    unfolding parseNumber_def Let_def by (simp split: if_splits)
  from assms ne obtain fp s3 ex where f: "fraction (drop (length ?ip) ?s1) = Some (fp, s3)"
    and e: "exponent s3 = Some (ex, r)"
    unfolding parseNumber_def Let_def by (simp split: option.splits prod.splits)
  have "length ?ip \<le> length ?s1"
    by (cases ?s1) (simp_all add: length_takeWhile_le)
  with ne have "length (drop (length ?ip) ?s1) < length ?s1"
    by (cases ?ip) simp_all
  moreover have "length ?s1 \<le> length s" by simp
  ultimately show ?thesis
    using fraction_shorter [OF f] exponent_shorter [OF e] by linarith
qed

lemma skipWs_Cons_length: "skipWs s = c # t \<Longrightarrow> length t < length s"
  using skipWs_length [of s] by simp

lemma shorter:
  "parseValue n s = Some (v, r) \<Longrightarrow> length r < length s"
  "parseElements n s = Some (vs, r) \<Longrightarrow> length r < length s"
  "parseMembers n s = Some (kvs, r) \<Longrightarrow> length r < length s"
proof (induction n s and n s and n s arbitrary: v r and vs r and kvs r
    rule: parseValue_parseElements_parseMembers.induct)
  case (1 s)
  then show ?case by simp
next
  case (2 n s)
  from "2.prems" obtain c t where st: "skipWs s = c # t"
    by (cases "skipWs s") auto
  note l0 = skipWs_Cons_length [OF st]
  consider (arr) "c = CHR ''[''" | (obj) "c \<noteq> CHR ''[''" "c = CHR ''{''"
    | (str) "c \<noteq> CHR ''[''" "c \<noteq> CHR ''{''" "c = CHR 0x22"
    | (other) "c \<noteq> CHR ''[''" "c \<noteq> CHR ''{''" "c \<noteq> CHR 0x22"
    by blast
  then show ?case
  proof cases
    case arr
    from "2.prems" st arr obtain d t1 where d: "skipWs t = d # t1"
      by (cases "skipWs t") auto
    note l1 = skipWs_Cons_length [OF d]
    show ?thesis
    proof (cases "d = CHR '']''")
      case True
      with "2.prems" st arr d have "r = t1" by simp
      with l0 l1 show ?thesis by simp
    next
      case False
      with "2.prems" st arr d obtain vs' where "parseElements n t = Some (vs', r)"
        by (auto split: option.splits)
      from "2.IH"(1) [OF st arr d False this] l0 show ?thesis by simp
    qed
  next
    case obj
    from "2.prems" st obj obtain d t1 where d: "skipWs t = d # t1"
      by (cases "skipWs t") auto
    note l1 = skipWs_Cons_length [OF d]
    show ?thesis
    proof (cases "d = CHR ''}''")
      case True
      with "2.prems" st obj d have "r = t1" by simp
      with l0 l1 show ?thesis by simp
    next
      case False
      with "2.prems" st obj d obtain kvs' where "parseMembers n t = Some (kvs', r)"
        by (auto split: option.splits)
      from "2.IH"(2) [OF st obj(1) obj(2) d False this] l0 show ?thesis by simp
    qed
  next
    case str
    with "2.prems" st obtain k where "parseChars t = Some (k, r)"
      by (auto split: option.splits)
    from parseChars_shorter [OF this] l0 show ?thesis by simp
  next
    case other
    from "2.prems" st other have
      "(prefix ''true'' (c # t) \<and> r = drop 4 (c # t))
       \<or> (prefix ''false'' (c # t) \<and> r = drop 5 (c # t))
       \<or> (prefix ''null'' (c # t) \<and> r = drop 4 (c # t))
       \<or> (\<exists>q. parseNumber (c # t) = Some (q, r))"
      by (auto split: if_splits option.splits)
    then have "length r < length (c # t)"
      by (auto simp: prefix_def dest: parseNumber_shorter)
    with l0 show ?thesis by simp
  qed
next
  case (3 s)
  then show ?case by simp
next
  case (4 n s)
  from "4.prems" obtain v t where pv: "parseValue n s = Some (v, t)"
    by (auto split: option.splits)
  from "4.IH"(1) [OF pv] have lt: "length t < length s" .
  from "4.prems" pv obtain c t1 where st: "skipWs t = c # t1"
    by (cases "skipWs t") auto
  note l1 = skipWs_Cons_length [OF st]
  show ?case
  proof (cases "c = CHR '',''")
    case True
    with "4.prems" pv st obtain vs' where pe: "parseElements n t1 = Some (vs', r)"
      by (auto split: option.splits)
    from "4.IH"(2) [OF pv refl st True pe] have "length r < length t1" .
    with l1 lt show ?thesis by simp
  next
    case False
    with "4.prems" pv st have "r = t1" by (auto split: if_splits)
    with l1 lt show ?thesis by simp
  qed
next
  case (5 s)
  then show ?case by simp
next
  case (6 n s)
  from "6.prems" obtain qc t where st: "skipWs s = qc # t"
    by (cases "skipWs s") auto
  note l0 = skipWs_Cons_length [OF st]
  from "6.prems" st have qq: "\<not> qc \<noteq> CHR 0x22" by (auto split: if_splits)
  from "6.prems" st qq obtain k t1 where pc: "parseChars t = Some (k, t1)"
    by (auto split: option.splits)
  have l1: "length t1 < length t" by (rule parseChars_shorter [OF pc])
  from "6.prems" st qq pc obtain colon t2 where s1: "skipWs t1 = colon # t2"
    by (cases "skipWs t1") auto
  note l2 = skipWs_Cons_length [OF s1]
  from "6.prems" st qq pc s1 have cc: "\<not> colon \<noteq> CHR '':''" by (auto split: if_splits)
  from "6.prems" st qq pc s1 cc obtain v t3 where pv: "parseValue n t2 = Some (v, t3)"
    by (auto split: option.splits)
  from "6.IH"(1) [OF st qq pc refl s1 cc pv] have l3: "length t3 < length t2" .
  from "6.prems" st qq pc s1 cc pv obtain c t4 where s3: "skipWs t3 = c # t4"
    by (cases "skipWs t3") auto
  note l4 = skipWs_Cons_length [OF s3]
  have chain: "length t4 < length s"
    using l0 l1 l2 l3 l4 by linarith
  show ?case
  proof (cases "c = CHR '',''")
    case True
    with "6.prems" st qq pc s1 cc pv s3 obtain kvs' where pm: "parseMembers n t4 = Some (kvs', r)"
      by (auto split: option.splits)
    from "6.IH"(2) [OF st qq pc refl s1 cc pv refl s3 True pm] have "length r < length t4" .
    with chain show ?thesis by simp
  next
    case False
    with "6.prems" st qq pc s1 cc pv s3 have "r = t4" by (auto split: if_splits)
    with chain show ?thesis by simp
  qed
qed


lemma stepA:
  assumes IHE: "\<And>t a b. length t < length s \<Longrightarrow> 2 * length t + 2 \<le> a
                  \<Longrightarrow> 2 * length t + 2 \<le> b \<Longrightarrow> parseElements a t = parseElements b t"
    and IHM: "\<And>t a b. length t < length s \<Longrightarrow> 2 * length t + 2 \<le> a
                  \<Longrightarrow> 2 * length t + 2 \<le> b \<Longrightarrow> parseMembers a t = parseMembers b t"
    and bn: "2 * length s \<le> n'" and bm: "2 * length s \<le> m'"
  shows "parseValue (Suc n') s = parseValue (Suc m') s"
proof (cases "skipWs s")
  case Nil
  then show ?thesis by (simp only: parseValue.simps list.case)
next
  case (Cons c t)
  note l0 = skipWs_Cons_length [OF Cons]
  have b1: "2 * length t + 2 \<le> n'" and b2: "2 * length t + 2 \<le> m'"
    using l0 bn bm by linarith+
  have E: "parseElements n' t = parseElements m' t"
    using l0 b1 b2 by (rule IHE)
  have M: "parseMembers n' t = parseMembers m' t"
    using l0 b1 b2 by (rule IHM)
  show ?thesis
    by (simp only: parseValue.simps Cons list.case E M)
qed


lemma stepB:
  assumes V: "parseValue n' s = parseValue m' s"
    and IHE: "\<And>t a b. length t < length s \<Longrightarrow> 2 * length t + 2 \<le> a
                  \<Longrightarrow> 2 * length t + 2 \<le> b \<Longrightarrow> parseElements a t = parseElements b t"
    and bn: "2 * length s + 1 \<le> n'" and bm: "2 * length s + 1 \<le> m'"
  shows "parseElements (Suc n') s = parseElements (Suc m') s"
proof (cases "parseValue m' s")
  case None
  then show ?thesis
    by (simp only: parseElements.simps V option.case)
next
  case (Some p)
  obtain v t where p: "p = (v, t)" by (cases p)
  note pv = Some [unfolded p]
  note l0 = shorter(1) [OF pv]
  show ?thesis
  proof (cases "skipWs t")
    case Nil
    then show ?thesis
      by (simp only: parseElements.simps V pv option.case prod.case list.case)
  next
    case (Cons c t1)
    note l1 = skipWs_Cons_length [OF Cons]
    have l: "length t1 < length s" using l0 l1 by linarith
    have b1: "2 * length t1 + 2 \<le> n'" and b2: "2 * length t1 + 2 \<le> m'"
      using l bn bm by linarith+
    have E: "parseElements n' t1 = parseElements m' t1"
      using l b1 b2 by (rule IHE)
    show ?thesis
      by (simp only: parseElements.simps V pv option.case prod.case list.case Cons E)
  qed
qed


lemma stepC:
  assumes IHV: "\<And>t a b. length t < length s \<Longrightarrow> 2 * length t + 1 \<le> a
                  \<Longrightarrow> 2 * length t + 1 \<le> b \<Longrightarrow> parseValue a t = parseValue b t"
    and IHM: "\<And>t a b. length t < length s \<Longrightarrow> 2 * length t + 2 \<le> a
                  \<Longrightarrow> 2 * length t + 2 \<le> b \<Longrightarrow> parseMembers a t = parseMembers b t"
    and bn: "2 * length s + 1 \<le> n'" and bm: "2 * length s + 1 \<le> m'"
  shows "parseMembers (Suc n') s = parseMembers (Suc m') s"
proof (cases "skipWs s")
  case Nil
  then show ?thesis
    by (simp only: parseMembers.simps list.case)
next
  case s0: (Cons q t)
  note l0 = skipWs_Cons_length [OF s0]
  show ?thesis
  proof (cases "parseChars t")
    case None
    then show ?thesis
      by (simp only: parseMembers.simps s0 list.case option.case)
  next
    case (Some p1)
    obtain k t1 where p1: "p1 = (k, t1)" by (cases p1)
    note pc = Some [unfolded p1]
    note l1 = parseChars_shorter [OF pc]
    show ?thesis
    proof (cases "skipWs t1")
      case Nil
      then show ?thesis
        by (simp only: parseMembers.simps s0 pc list.case option.case prod.case)
    next
      case s1: (Cons colon t2)
      note l2 = skipWs_Cons_length [OF s1]
      have l: "length t2 < length s" using l0 l1 l2 by linarith
      have b1: "2 * length t2 + 1 \<le> n'" and b2: "2 * length t2 + 1 \<le> m'"
        using l bn bm by linarith+
      have V: "parseValue n' t2 = parseValue m' t2"
        using l b1 b2 by (rule IHV)
      show ?thesis
      proof (cases "parseValue m' t2")
        case None
        then show ?thesis
          by (simp only: parseMembers.simps s0 pc s1 V list.case option.case prod.case)
      next
        case (Some p3)
        obtain v t3 where p3: "p3 = (v, t3)" by (cases p3)
        note pv = Some [unfolded p3]
        note l3 = shorter(1) [OF pv]
        show ?thesis
        proof (cases "skipWs t3")
          case Nil
          then show ?thesis
            by (simp only: parseMembers.simps s0 pc s1 V pv list.case option.case prod.case)
        next
          case s3: (Cons c t4)
          note l4 = skipWs_Cons_length [OF s3]
          have l': "length t4 < length s" using l l3 l4 by linarith
          have c1: "2 * length t4 + 2 \<le> n'" and c2: "2 * length t4 + 2 \<le> m'"
            using l' bn bm by linarith+
          have M: "parseMembers n' t4 = parseMembers m' t4"
            using l' c1 c2 by (rule IHM)
          show ?thesis
            by (simp only: parseMembers.simps s0 pc s1 V pv s3 M list.case option.case prod.case)
        qed
      qed
    qed
  qed
qed


lemma fuel_enough:
  "(\<forall>n m. 2 * length s + 1 \<le> n \<longrightarrow> 2 * length s + 1 \<le> m \<longrightarrow> parseValue n s = parseValue m s)
   \<and> (\<forall>n m. 2 * length s + 2 \<le> n \<longrightarrow> 2 * length s + 2 \<le> m
         \<longrightarrow> parseElements n s = parseElements m s)
   \<and> (\<forall>n m. 2 * length s + 2 \<le> n \<longrightarrow> 2 * length s + 2 \<le> m
         \<longrightarrow> parseMembers n s = parseMembers m s)"
proof (induction "length s" arbitrary: s rule: less_induct)
  case less
  have IHV: "parseValue a t = parseValue b t"
    if "length t < length s" "2 * length t + 1 \<le> a" "2 * length t + 1 \<le> b" for a b t
    by (rule less.hyps [OF that(1), THEN conjunct1, rule_format, OF that(2) that(3)])
  have IHE: "parseElements a t = parseElements b t"
    if "length t < length s" "2 * length t + 2 \<le> a" "2 * length t + 2 \<le> b" for a b t
    by (rule less.hyps [OF that(1), THEN conjunct2, THEN conjunct1, rule_format,
          OF that(2) that(3)])
  have IHM: "parseMembers a t = parseMembers b t"
    if "length t < length s" "2 * length t + 2 \<le> a" "2 * length t + 2 \<le> b" for a b t
    by (rule less.hyps [OF that(1), THEN conjunct2, THEN conjunct2, rule_format,
          OF that(2) that(3)])
  have A: "parseValue n s = parseValue m s"
    if bn: "2 * length s + 1 \<le> n" and bm: "2 * length s + 1 \<le> m" for n m
  proof -
    from bn have n: "n = Suc (n - 1)" and n1: "2 * length s \<le> n - 1" by linarith+
    from bm have m: "m = Suc (m - 1)" and m1: "2 * length s \<le> m - 1" by linarith+
    have "parseValue (Suc (n - 1)) s = parseValue (Suc (m - 1)) s"
      using IHE IHM n1 m1 by (rule stepA)
    with n m show ?thesis by metis
  qed
  have B: "parseElements n s = parseElements m s"
    if bn: "2 * length s + 2 \<le> n" and bm: "2 * length s + 2 \<le> m" for n m
  proof -
    from bn have n: "n = Suc (n - 1)" and n1: "2 * length s + 1 \<le> n - 1" by linarith+
    from bm have m: "m = Suc (m - 1)" and m1: "2 * length s + 1 \<le> m - 1" by linarith+
    have V: "parseValue (n - 1) s = parseValue (m - 1) s"
      using n1 m1 by (rule A)
    have "parseElements (Suc (n - 1)) s = parseElements (Suc (m - 1)) s"
      using V IHE n1 m1 by (rule stepB)
    with n m show ?thesis by metis
  qed
  have C: "parseMembers n s = parseMembers m s"
    if bn: "2 * length s + 2 \<le> n" and bm: "2 * length s + 2 \<le> m" for n m
  proof -
    from bn have n: "n = Suc (n - 1)" and n1: "2 * length s + 1 \<le> n - 1" by linarith+
    from bm have m: "m = Suc (m - 1)" and m1: "2 * length s + 1 \<le> m - 1" by linarith+
    have "parseMembers (Suc (n - 1)) s = parseMembers (Suc (m - 1)) s"
      using IHV IHM n1 m1 by (rule stepC)
    with n m show ?thesis by metis
  qed
  show ?case
    by (intro conjI allI impI; rule A B C; assumption)
qed

lemma parseJSON_fuel:
  assumes "Suc (2 * length s) \<le> n"
  shows "parseJSON s = (case parseValue n s of
                      None \<Rightarrow> None
                    | Some (v, r) \<Rightarrow> if skipWs r = [] then Some v else None)"
proof -
  have "parseValue (Suc (2 * length s)) s = parseValue n s"
    using assms by (intro fuel_enough [THEN conjunct1, rule_format]) simp_all
  then show ?thesis by (simp only: parseJSON_def)
qed

section \<open>Properties of identifyClothingItems\<close>








lemma jsonWs_whiteSpace: "list_all isJsonWs ws \<Longrightarrow> list_all isWhiteSpace ws"
  by (induction ws) (auto simp: isJsonWs_def isWhiteSpace_def)








lemma interpretIdentification_no_text:
  "responseText response = None \<Longrightarrow> interpretIdentification parse response = JArray []"
  by (simp add: interpretIdentification_def identificationBody_def)

lemma interpretIdentification_unparsable:
  "responseText response = Some t \<Longrightarrow> parse (stripFences (trim t)) = None
     \<Longrightarrow> interpretIdentification parse response = JArray []"
  by (simp add: interpretIdentification_def identificationBody_def)

lemma interpretIdentification_null:
  "responseText response = Some t \<Longrightarrow> parse (stripFences (trim t)) = Some JNull
     \<Longrightarrow> interpretIdentification parse response = JArray []"
  by (simp add: interpretIdentification_def identificationBody_def)

lemma interpretIdentification_no_field:
  "responseText response = Some t \<Longrightarrow> parse (stripFences (trim t)) = Some (JObject kvs)
     \<Longrightarrow> map_of (rev kvs) (codeUnits ''clothing_items'') = None
     \<Longrightarrow> interpretIdentification parse response = JArray []"
  by (simp add: interpretIdentification_def identificationBody_def)

lemma identifyClothingItems_throws:
  "(fst (identifyClothingItems P file tr) = Inl e) \<longleftrightarrow> (fst (fileToPart P file tr) = Inl e)"
  by (auto simp: identifyClothingItems_def callModel_def split: prod.splits sum.splits)

lemma identifyClothingItems_rejected:
  assumes "fst (fileToPart P file tr) = Inr imagePart"
    and "generateContent P (tr @ [FileRead file]) (identifyRequest imagePart) = Inl err"
  shows "fst (identifyClothingItems P file tr) = Inr (JArray [])"
  using assms fileToPart_trace [of P "file" tr]
  by (auto simp: identifyClothingItems_def callModel_def split: prod.splits sum.splits)

lemma identifyClothingItems_answered:
  assumes "fst (fileToPart P file tr) = Inr imagePart"
    and "generateContent P (tr @ [FileRead file]) (identifyRequest imagePart) = Inr response"
  shows "fst (identifyClothingItems P file tr)
           = Inr (interpretIdentification (JSON_parse P) response)"
  using assms fileToPart_trace [of P "file" tr]
  by (auto simp: identifyClothingItems_def callModel_def split: prod.splits sum.splits)

text \<open>
  C3, as the claim states it, fails: fileToPart is awaited before the try block, so a
  file that cannot be read, or whose data URL is malformed, makes
  identifyClothingItems throw.
\<close>

theorem identifyClothingItems_counterexample:
  "fst (identifyClothingItems unreadablePlatform ''gone.png'' [])
     = Inl (Rejected ''NotReadableError'')
   \<and> fst (identifyClothingItems emptyFilePlatform ''empty.png'' [])
     = Inl (Error ''Invalid data URL'')"
  by (simp add: identifyClothingItems_def fileToPart_def unreadablePlatform_def
      emptyFilePlatform_def partOfDataUrl_def)

text \<open>
  C3, amended. identifyClothingItems throws exactly when fileToPart fails, and then
  that error. Once the image is encoded it never throws: a rejected remote call gives
  the empty list, and an answer is interpreted under the catch clause, which gives
  the empty list when the envelope has no text, when the cleaned text does not parse,
  and when the parsed value is null or an object without the field clothing_items.
\<close>

theorem identifyClothingItems_outcome:
  "((fst (identifyClothingItems P file tr) = Inl e) \<longleftrightarrow> (fst (fileToPart P file tr) = Inl e))
   \<and> (\<forall>imagePart. fst (fileToPart P file tr) = Inr imagePart \<longrightarrow>
         (\<exists>items. fst (identifyClothingItems P file tr) = Inr items)
         \<and> (\<forall>err. generateContent P (tr @ [FileRead file]) (identifyRequest imagePart) = Inl err
               \<longrightarrow> fst (identifyClothingItems P file tr) = Inr (JArray []))
         \<and> (\<forall>response.
               generateContent P (tr @ [FileRead file]) (identifyRequest imagePart) = Inr response
               \<longrightarrow> fst (identifyClothingItems P file tr)
                     = Inr (interpretIdentification (JSON_parse P) response)))
   \<and> (\<forall>response. responseText response = None \<longrightarrow>
         interpretIdentification (JSON_parse P) response = JArray [])
   \<and> (\<forall>response t. responseText response = Some t
         \<and> JSON_parse P (stripFences (trim t)) = None \<longrightarrow>
         interpretIdentification (JSON_parse P) response = JArray [])
   \<and> (\<forall>response t. responseText response = Some t
         \<and> JSON_parse P (stripFences (trim t)) = Some JNull \<longrightarrow>
         interpretIdentification (JSON_parse P) response = JArray [])
   \<and> (\<forall>response t kvs. responseText response = Some t
         \<and> JSON_parse P (stripFences (trim t)) = Some (JObject kvs)
         \<and> map_of (rev kvs) (codeUnits ''clothing_items'') = None \<longrightarrow>
         interpretIdentification (JSON_parse P) response = JArray [])"
proof -
  have a: "\<forall>imagePart. fst (fileToPart P file tr) = Inr imagePart \<longrightarrow>
         (\<exists>items. fst (identifyClothingItems P file tr) = Inr items)
         \<and> (\<forall>err. generateContent P (tr @ [FileRead file]) (identifyRequest imagePart) = Inl err
               \<longrightarrow> fst (identifyClothingItems P file tr) = Inr (JArray []))
         \<and> (\<forall>response.
               generateContent P (tr @ [FileRead file]) (identifyRequest imagePart) = Inr response
               \<longrightarrow> fst (identifyClothingItems P file tr)
                     = Inr (interpretIdentification (JSON_parse P) response))"
  proof (intro allI impI conjI)
    fix imagePart
    assume p: "fst (fileToPart P file tr) = Inr imagePart"
    show "\<exists>items. fst (identifyClothingItems P file tr) = Inr items"
      using p identifyClothingItems_throws [of P "file" tr]
      by (cases "fst (identifyClothingItems P file tr)") auto
    show "fst (identifyClothingItems P file tr) = Inr (JArray [])"
      if "generateContent P (tr @ [FileRead file]) (identifyRequest imagePart) = Inl err" for err
      using p that by (rule identifyClothingItems_rejected)
    show "fst (identifyClothingItems P file tr)
            = Inr (interpretIdentification (JSON_parse P) response)"
      if "generateContent P (tr @ [FileRead file]) (identifyRequest imagePart) = Inr response"
      for response
      using p that by (rule identifyClothingItems_answered)
  qed
  show ?thesis
    using a identifyClothingItems_throws [of P "file" tr e]
    by (simp add: interpretIdentification_no_text interpretIdentification_unparsable
        interpretIdentification_null interpretIdentification_no_field)
qed

theorem identifyClothingItems_outcome_witness:
  "fst (fileToPart offlinePlatform ''photo.png'' []) =
     Inr \<lparr>inlineData = Some \<lparr>mimeType = Some ''image/png'', data = Some ''AAAA''\<rparr>,
          partText = None\<rparr>
   \<and> fst (identifyClothingItems offlinePlatform ''photo.png'' []) = Inr (JArray [])
   \<and> snd (identifyClothingItems offlinePlatform ''photo.png'' []) =
       [FileRead ''photo.png'',
        ModelCall (identifyRequest
          \<lparr>inlineData = Some \<lparr>mimeType = Some ''image/png'', data = Some ''AAAA''\<rparr>,
           partText = None\<rparr>)]"
  using identifyClothingItems_outcome [of offlinePlatform "''photo.png''" "[]"]
  by (simp add: identifyClothingItems_def fileToPart_def offlinePlatform_def
      partOfDataUrl_def isLineTerminator_def callModel_def)

section \<open>Properties of the panel\<close>

lemmas panel_defs = panelInv_def pendingOk_def urlsOk_def Let_def commit_def setState_def
  cleanup_def releases_def held_def revokeObjectURL_def

lemmas inv_defs = panelInv_def pendingOk_def urlsOk_def releases_def held_def

lemma inv_init: "panelInv initialWorld"
  by (simp add: panelInv_def pendingOk_def urlsOk_def initialWorld_def releases_def held_def)

lemma inv_select:
  assumes "panelInv w" "mounted w" "uploaderShown (panel w)"
  shows "panelInv (handleFileSelect files w)"
proof (cases files)
  case None
  with assms show ?thesis by (simp add: handleFileSelect_def)
next
  case (Some fs)
  show ?thesis
  proof (cases fs)
    case Nil
    with Some assms show ?thesis by (simp add: handleFileSelect_def)
  next
    case (Cons first more)
    with Some assms show ?thesis
      by (auto simp: handleFileSelect_def panel_defs uploaderShown_def less_Suc_eq
          split: option.splits if_splits)
  qed
qed

lemma identified_items:
  assumes "items \<noteq> []"
  shows "handleIdentified src (Inr items) w =
           (if mounted w
            then w\<lparr>panel := (panel w)\<lparr>identifiedItems := items, isIdentifying := False\<rparr>,
                   pending := remove1 src (pending w),
                   urlLog := urlLog w @ (if clothingSource (panel w) \<noteq> effectSource w
                               then (case effectSource w of None \<Rightarrow> [] | Some (f, u) \<Rightarrow> [Revoked u])
                               else []),
                   effectSource := clothingSource (panel w)\<rparr>
            else w\<lparr>pending := remove1 src (pending w)\<rparr>)"
  using assms
  by (simp add: handleIdentified_def Let_def commit_def setState_def cleanup_def
      revokeObjectURL_def split: option.splits)

lemma identified_failed_gen:
  assumes "w2 = revokeObjectURL (snd src)
                  (setState (\<lambda>p. p\<lparr>error := Some msg, clothingSource := None\<rparr>)
                     (w\<lparr>pending := remove1 src (pending w)\<rparr>))"
  shows "commit (setState (\<lambda>p. p\<lparr>isIdentifying := False\<rparr>) w2) =
           (if mounted w
            then w\<lparr>panel := failedPanel msg (panel w),
                   pending := remove1 src (pending w),
                   urlLog := urlLog w @ [Revoked (snd src)]
                       @ (case effectSource w of None \<Rightarrow> [] | Some (f, u) \<Rightarrow> [Revoked u]),
                   effectSource := None\<rparr>
            else w\<lparr>pending := remove1 src (pending w),
                   urlLog := urlLog w @ [Revoked (snd src)]\<rparr>)"
  unfolding assms
  by (simp add: Let_def commit_def setState_def cleanup_def failedPanel_def
      revokeObjectURL_def split: option.splits)

lemma identified_empty:
  "handleIdentified src (Inr []) w =
           (if mounted w
            then w\<lparr>panel := failedPanel (''Could not identify any clothing items in the image. ''
                                                        @ ''Please try another one.'') (panel w),
                   pending := remove1 src (pending w),
                   urlLog := urlLog w @ [Revoked (snd src)]
                       @ (case effectSource w of None \<Rightarrow> [] | Some (f, u) \<Rightarrow> [Revoked u]),
                   effectSource := None\<rparr>
            else w\<lparr>pending := remove1 src (pending w),
                   urlLog := urlLog w @ [Revoked (snd src)]\<rparr>)"
  using identified_failed_gen [OF refl, of src _ w]
  by (simp add: handleIdentified_def Let_def)

lemma identified_rejected:
  "handleIdentified src (Inl e) w =
           (if mounted w
            then w\<lparr>panel := failedPanel ''An error occurred while analyzing the image.'' (panel w),
                   pending := remove1 src (pending w),
                   urlLog := urlLog w @ [Revoked (snd src)]
                       @ (case effectSource w of None \<Rightarrow> [] | Some (f, u) \<Rightarrow> [Revoked u]),
                   effectSource := None\<rparr>
            else w\<lparr>pending := remove1 src (pending w),
                   urlLog := urlLog w @ [Revoked (snd src)]\<rparr>)"
  using identified_failed_gen [OF refl, of src _ w]
  by (simp add: handleIdentified_def Let_def)

lemma pending_mounted:
  assumes "panelInv w" "src \<in> set (pending w)" "mounted w"
  shows "pending w = [src]" and "clothingSource (panel w) = Some src"
    and "effectSource w = Some src" and "isIdentifying (panel w)"
proof -
  from assms show i: "isIdentifying (panel w)"
    by (auto simp: panelInv_def pendingOk_def split: if_splits)
  with assms show "pending w = [src]" and "clothingSource (panel w) = Some src"
    and "effectSource w = Some src"
    by (auto simp: panelInv_def pendingOk_def split: if_splits)
qed

lemma pending_unmounted:
  assumes "panelInv w" "src \<in> set (pending w)" "\<not> mounted w"
  shows "pending w = [src]"
  using assms by (cases "pending w") (auto simp: panelInv_def pendingOk_def)

lemma inv_failed_mounted:
  assumes "panelInv w" "src \<in> set (pending w)" "mounted w"
  shows "panelInv (w\<lparr>panel := failedPanel msg (panel w),
                   pending := remove1 src (pending w),
                   urlLog := urlLog w @ [Revoked (snd src)]
                       @ (case effectSource w of None \<Rightarrow> [] | Some (f, u) \<Rightarrow> [Revoked u]),
                   effectSource := None\<rparr>)"
proof -
  note p = pending_mounted [OF assms]
  obtain f u where s: "src = (f, u)" by (cases src)
  from assms(1) show ?thesis
    unfolding inv_defs failedPanel_def
    using p s assms(3)
    by auto
qed

lemma inv_failed_unmounted:
  assumes "panelInv w" "src \<in> set (pending w)" "\<not> mounted w"
  shows "panelInv (w\<lparr>pending := remove1 src (pending w),
                   urlLog := urlLog w @ [Revoked (snd src)]\<rparr>)"
proof -
  note p = pending_unmounted [OF assms]
  obtain f u where s: "src = (f, u)" by (cases src)
  from assms(1) show ?thesis
    unfolding inv_defs
    using p s assms(3)
    by auto
qed

lemma inv_items:
  assumes "panelInv w" "src \<in> set (pending w)"
  shows "panelInv (if mounted w
            then w\<lparr>panel := (panel w)\<lparr>identifiedItems := items, isIdentifying := False\<rparr>,
                   pending := remove1 src (pending w),
                   urlLog := urlLog w @ (if clothingSource (panel w) \<noteq> effectSource w
                               then (case effectSource w of None \<Rightarrow> [] | Some (f, u) \<Rightarrow> [Revoked u])
                               else []),
                   effectSource := clothingSource (panel w)\<rparr>
            else w\<lparr>pending := remove1 src (pending w)\<rparr>)"
proof (cases "mounted w")
  case True
  note p = pending_mounted [OF assms True]
  obtain f u where s: "src = (f, u)" by (cases src)
  from assms(1) show ?thesis
    unfolding inv_defs
    using p s True
    by auto
next
  case False
  note p = pending_unmounted [OF assms False]
  obtain f u where s: "src = (f, u)" by (cases src)
  from assms(1) show ?thesis
    unfolding inv_defs
    using p s False
    by auto
qed

lemma inv_identified:
  assumes "panelInv w" "newSource \<in> set (pending w)"
  shows "panelInv (handleIdentified newSource outcome w)"
proof (cases outcome)
  case (Inl e)
  show ?thesis
    unfolding Inl identified_rejected
    using inv_failed_mounted [OF assms] inv_failed_unmounted [OF assms] by simp
next
  case (Inr items)
  show ?thesis
  proof (cases "items = []")
    case True
    show ?thesis
      unfolding Inr True identified_empty
      using inv_failed_mounted [OF assms] inv_failed_unmounted [OF assms] by simp
  next
    case False
    show ?thesis
      unfolding Inr identified_items [OF False]
      by (rule inv_items [OF assms])
  qed
qed

lemma inv_toggle:
  assumes "panelInv w"
  shows "panelInv (handleToggleItem item w)"
  using assms by (auto simp: handleToggleItem_def panel_defs split: option.splits if_splits)

lemma inv_reset:
  assumes "panelInv w" "mounted w" "itemsShown (panel w)"
  shows "panelInv (handleReset w)"
  using assms
  by (auto simp: handleReset_def itemsShown_def panel_defs split: option.splits if_splits)

lemma inv_apply:
  assumes "panelInv w"
  shows "panelInv (handleApply w)"
  using assms by (auto simp: handleApply_def panel_defs split: option.splits if_splits)

lemma inv_unmount:
  assumes "panelInv w" "mounted w"
  shows "panelInv (unmount w)"
  using assms
  by (auto simp: unmount_def panel_defs split: option.splits if_splits)

lemma inv_drag:
  assumes "panelInv w"
  shows "panelInv (commit (setState (\<lambda>p. p\<lparr>isDraggingOver := b\<rparr>) w))"
  using assms by (auto simp: panel_defs split: option.splits if_splits)

lemma inv_drag0:
  assumes "panelInv w"
  shows "panelInv (setState (\<lambda>p. p\<lparr>isDraggingOver := b\<rparr>) w)"
  using assms by (auto simp: panel_defs split: option.splits if_splits)

lemma inv_fire: "panelInv w \<Longrightarrow> panelInv (fire ev w)"
proof (cases ev)
  case (DropFiles files)
  assume i: "panelInv w"
  show ?thesis
  proof (cases "mounted w \<and> uploaderShown (panel w)")
    case True
    have "panelInv (handleFileSelect files (setState (\<lambda>p. p\<lparr>isDraggingOver := False\<rparr>) w))"
      by (rule inv_select)
        (use True i in \<open>simp_all add: inv_drag0, simp_all add: setState_def uploaderShown_def\<close>)
    with True DropFiles show ?thesis by simp
  next
    case False
    with DropFiles i show ?thesis by auto
  qed
qed (simp_all add: inv_select inv_identified inv_toggle inv_reset inv_apply inv_unmount inv_drag)

lemma inv_run: "panelInv (run evs)"
  by (induction evs rule: rev_induct) (simp_all add: run_def inv_init inv_fire)

lemmas run_defs = run_def initialWorld_def handleFileSelect_def handleIdentified_def
  handleToggleItem_def handleReset_def handleApply_def unmount_def commit_def setState_def
  cleanup_def revokeObjectURL_def uploaderShown_def itemsShown_def applyShown_def
  applyDisabled_def toggleItem_def Let_def

lemma held_run:
  assumes "held (run evs) u"
  obtains f where "mounted (run evs)" and "clothingSource (panel (run evs)) = Some (f, u)"
    and "effectSource (run evs) = Some (f, u)" and "releases (run evs) u = 0"
proof -
  have i: "panelInv (run evs)" by (rule inv_run)
  from assms obtain f where m: "mounted (run evs)"
    and c: "clothingSource (panel (run evs)) = Some (f, u)"
    by (cases "clothingSource (panel (run evs))") (auto simp: held_def)
  from i m c have e: "effectSource (run evs) = Some (f, u)"
    by (simp add: panelInv_def pendingOk_def)
  from i assms have r: "releases (run evs) u = 0"
    by (simp add: panelInv_def urlsOk_def)
  from m c e r show thesis by (rule that)
qed

text \<open>
  C7, as the claim states it, fails: after an upload whose identification finds
  nothing, and after an upload followed by a reset, revokeObjectURL has run twice for
  the one URL that was created, once called by the handler and once by the clean-up
  of the effect.
\<close>

theorem handle_release_counterexample:
  "urlLog (run failedUpload) = [Created 0, Revoked 0, Revoked 0]
   \<and> releases (run failedUpload) 0 = 2
   \<and> urlLog (run uploadThenReset) = [Created 0, Revoked 0, Revoked 0]
   \<and> releases (run uploadThenReset) 0 = 2"
  by (simp add: failedUpload_def uploadThenReset_def run_defs releases_def)

text \<open>
  C7, amended. In every execution, a URL that has been created is not released while
  the mounted component holds it as its clothingSource, and once it is no longer held
  it has been released at least once and at most twice: no handle leaks. Teardown
  releases a held URL exactly once; a reset, and the failure of the awaited
  identification (no items, or a rejection), release it exactly twice.
\<close>

theorem handle_releases:
  fixes evs :: "('f, 'e) uiEvent list"
  shows "(Created u \<in> set (urlLog (run evs)) \<longrightarrow>
            (if held (run evs) u then releases (run evs) u = 0
             else 1 \<le> releases (run evs) u \<and> releases (run evs) u \<le> 2))
       \<and> (held (run evs) u \<longrightarrow> releases (fire (Unmount :: ('f, 'e) uiEvent) (run evs)) u = 1)
       \<and> (held (run evs) u \<and> itemsShown (panel (run evs)) \<longrightarrow>
            releases (fire (ClickReset :: ('f, 'e) uiEvent) (run evs)) u = 2)
       \<and> (\<forall>file. held (run evs) u \<and> (file, u) \<in> set (pending (run evs)) \<longrightarrow>
            releases (fire (Identified (file, u) (Inr []) :: ('f, 'e) uiEvent) (run evs)) u = 2
            \<and> (\<forall>err :: 'e. releases (fire (Identified (file, u) (Inl err)) (run evs)) u = 2))"
proof (intro conjI impI allI)
  have i: "urlsOk (run evs)"
    using inv_run [of evs] by (simp add: panelInv_def)
  show "if held (run evs) u then releases (run evs) u = 0
        else 1 \<le> releases (run evs) u \<and> releases (run evs) u \<le> 2"
    if "Created u \<in> set (urlLog (run evs))"
  proof -
    from that i have "u < nextUrl (run evs)"
      unfolding urlsOk_def by (meson not_le)
    with i show ?thesis unfolding urlsOk_def by simp
  qed
  show "releases (fire (Unmount :: ('f, 'e) uiEvent) (run evs)) u = 1"
    if "held (run evs) u"
    using that
    by (rule held_run)
      (simp add: unmount_def cleanup_def revokeObjectURL_def releases_def)
  show "releases (fire (ClickReset :: ('f, 'e) uiEvent) (run evs)) u = 2"
    if "held (run evs) u \<and> itemsShown (panel (run evs))"
  proof -
    from that have h: "held (run evs) u" and s: "itemsShown (panel (run evs))" by simp_all
    from h obtain f where "mounted (run evs)"
      and "clothingSource (panel (run evs)) = Some (f, u)"
      and "effectSource (run evs) = Some (f, u)" and "releases (run evs) u = 0"
      by (rule held_run)
    with s show ?thesis
      by (simp add: handleReset_def commit_def setState_def cleanup_def revokeObjectURL_def
          releases_def)
  qed
  show "releases (fire (Identified (f, u) (Inr []) :: ('f, 'e) uiEvent) (run evs)) u = 2"
    if "held (run evs) u \<and> (f, u) \<in> set (pending (run evs))" for f
  proof -
    from that have h: "held (run evs) u" and p: "(f, u) \<in> set (pending (run evs))"
      by simp_all
    from h obtain g where "mounted (run evs)"
      and "clothingSource (panel (run evs)) = Some (g, u)"
      and "effectSource (run evs) = Some (g, u)" and "releases (run evs) u = 0"
      by (rule held_run)
    with p show ?thesis
      by (simp add: identified_empty releases_def)
  qed
  show "releases (fire (Identified (f, u) (Inl err) :: ('f, 'e) uiEvent) (run evs)) u = 2"
    if "held (run evs) u \<and> (f, u) \<in> set (pending (run evs))" for f and err :: 'e
  proof -
    from that have h: "held (run evs) u" and p: "(f, u) \<in> set (pending (run evs))"
      by simp_all
    from h obtain g where "mounted (run evs)"
      and "clothingSource (panel (run evs)) = Some (g, u)"
      and "effectSource (run evs) = Some (g, u)" and "releases (run evs) u = 0"
      by (rule held_run)
    with p show ?thesis
      by (simp add: identified_rejected releases_def)
  qed
qed

theorem handle_releases_witness:
  "Created 0 \<in> set (urlLog (run failedUpload))
   \<and> \<not> held (run failedUpload) 0
   \<and> releases (run failedUpload) 0 = 2
   \<and> held (run (butlast failedUpload)) 0
   \<and> releases (run (butlast failedUpload)) 0 = 0
   \<and> releases (fire (Unmount :: (string, unit) uiEvent) (run (butlast failedUpload))) 0 = 1"
  using handle_releases [where u = 0 and evs = failedUpload]
    handle_releases [where u = 0 and evs = "butlast failedUpload"]
  by (simp add: failedUpload_def run_defs releases_def held_def)

lemma toggleItem_set:
  "set (toggleItem label sel) = (if label \<in> set sel then set sel - {label} else insert label (set sel))"
  by (auto simp: toggleItem_def)

lemma toggleItem_twice_set: "set (toggleItem label (toggleItem label sel)) = set sel"
  by (auto simp: toggleItem_def)

lemma toggleItem_twice_absent:
  "label \<notin> set sel \<Longrightarrow> toggleItem label (toggleItem label sel) = sel"
  by (auto simp: toggleItem_def filter_id_conv)

lemma toggleItem_distinct: "distinct sel \<Longrightarrow> distinct (toggleItem label sel)"
  by (simp add: toggleItem_def)

lemma commit_run: "commit (run evs) = run evs"
  using inv_run [of evs] by (simp add: commit_def panelInv_def pendingOk_def split: if_splits)

lemma click_item_run:
  assumes "mounted (run evs)" "itemsShown (panel (run evs))"
    and "label \<in> set (identifiedItems (panel (run evs)))"
  shows "fire (ClickItem label) (run evs) =
           (run evs)\<lparr>panel := (panel (run evs))\<lparr>selectedItems :=
                          toggleItem label (selectedItems (panel (run evs)))\<rparr>\<rparr>"
proof -
  have "effectSource (run evs) = clothingSource (panel (run evs))"
    using inv_run [of evs] assms(1) by (simp add: panelInv_def pendingOk_def)
  with assms show ?thesis
    by (simp add: handleToggleItem_def commit_def setState_def)
qed

text \<open>
  C8. Toggling a label removes it from the selection when it is there and adds it
  when it is not, so toggling twice gives the same set of labels (and the same list
  when the label was absent), and a selection without duplicates stays so. In every
  reachable state with the items shown, a click on a label toggles it and changes
  nothing else. The Apply button is disabled exactly when isLoading holds or the
  selection is empty, and a click then does nothing; with a source, no identification
  running and a non-empty selection, a click adds exactly one call of onApplySwap,
  with the uploaded file and the selected labels, and changes nothing else.
\<close>

theorem toggle_and_confirm:
  "set (toggleItem label sel)
     = (if label \<in> set sel then set sel - {label} else insert label (set sel))
   \<and> set (toggleItem label (toggleItem label sel)) = set sel
   \<and> (label \<notin> set sel \<longrightarrow> toggleItem label (toggleItem label sel) = sel)
   \<and> (distinct sel \<longrightarrow> distinct (toggleItem label sel))
   \<and> (mounted (run evs) \<and> itemsShown (panel (run evs))
        \<and> label \<in> set (identifiedItems (panel (run evs))) \<longrightarrow>
        fire (ClickItem label) (run evs) =
          (run evs)\<lparr>panel := (panel (run evs))\<lparr>selectedItems :=
                         toggleItem label (selectedItems (panel (run evs)))\<rparr>\<rparr>)
   \<and> (applyDisabled isLoading (panel w) \<longleftrightarrow> isLoading \<or> selectedItems (panel w) = [])
   \<and> (isLoading \<or> selectedItems (panel w) = [] \<longrightarrow> fire (ClickApply isLoading) w = w)
   \<and> (\<forall>f url. mounted w \<and> clothingSource (panel w) = Some (f, url)
         \<and> \<not> isIdentifying (panel w) \<and> selectedItems (panel w) \<noteq> [] \<longrightarrow>
         fire (ClickApply False) w = w\<lparr>applied := applied w @ [(f, selectedItems (panel w))]\<rparr>)"
proof (intro conjI)
  show "mounted (run evs) \<and> itemsShown (panel (run evs))
        \<and> label \<in> set (identifiedItems (panel (run evs))) \<longrightarrow>
        fire (ClickItem label) (run evs) =
          (run evs)\<lparr>panel := (panel (run evs))\<lparr>selectedItems :=
                         toggleItem label (selectedItems (panel (run evs)))\<rparr>\<rparr>"
    using click_item_run [of evs label] by blast
  show "isLoading \<or> selectedItems (panel w) = [] \<longrightarrow> fire (ClickApply isLoading) w = w"
    by (auto simp: applyDisabled_def)
  show "\<forall>f url. mounted w \<and> clothingSource (panel w) = Some (f, url)
         \<and> \<not> isIdentifying (panel w) \<and> selectedItems (panel w) \<noteq> [] \<longrightarrow>
         fire (ClickApply False) w = w\<lparr>applied := applied w @ [(f, selectedItems (panel w))]\<rparr>"
    by (simp add: applyShown_def applyDisabled_def handleApply_def)
  show "set (toggleItem label sel)
     = (if label \<in> set sel then set sel - {label} else insert label (set sel))"
    by (rule toggleItem_set)
  show "set (toggleItem label (toggleItem label sel)) = set sel"
    by (rule toggleItem_twice_set)
  show "label \<notin> set sel \<longrightarrow> toggleItem label (toggleItem label sel) = sel"
    using toggleItem_twice_absent by blast
  show "distinct sel \<longrightarrow> distinct (toggleItem label sel)"
    using toggleItem_distinct by blast
  show "applyDisabled isLoading (panel w) \<longleftrightarrow> isLoading \<or> selectedItems (panel w) = []"
    by (simp add: applyDisabled_def)
qed

theorem toggle_and_confirm_witness:
  "identifiedItems (panel (run shirtAndShorts)) = [''shirt'', ''shorts'']
   \<and> selectedItems (panel (run shirtAndShorts)) = []
   \<and> fire (ClickApply False) (run shirtAndShorts) = run shirtAndShorts
   \<and> selectedItems (panel (run (shirtAndShorts @ [ClickItem ''shorts'']))) = [''shorts'']
   \<and> fire (ClickApply True) (run (shirtAndShorts @ [ClickItem ''shorts'']))
       = run (shirtAndShorts @ [ClickItem ''shorts''])
   \<and> applied (run (shirtAndShorts @ [ClickItem ''shorts'', ClickApply False]))
       = [(''A'', [''shorts''])]"
  using toggle_and_confirm [of "''shorts''" "[]" shirtAndShorts False "run shirtAndShorts"]
    toggle_and_confirm [of "''shorts''" "[]" shirtAndShorts True
      "run (shirtAndShorts @ [ClickItem ''shorts''])"]
  by (simp add: shirtAndShorts_def run_defs)

text \<open>
  C10. handleFileSelect with null or with an empty file list returns at once: the
  world is the same, with its hook state, its URL log, its awaited calls and its
  callback calls, and so is the world after the change or drop event of the file
  input that delivers such a list through handleFileSelect.
\<close>

theorem handleFileSelect_no_files:
  "handleFileSelect None w = w
   \<and> handleFileSelect (Some []) w = w
   \<and> fire (SelectFiles None) w = w
   \<and> fire (SelectFiles (Some [])) w = w"
  by (simp add: handleFileSelect_def)

end
